theory Spec2Isabelle
  imports Main "HOL-Library.FSet"
begin

section \<open>Go strings\<close>

text \<open>
  A Go string is a sequence of bytes: \<open>len\<close> counts bytes and \<open>s[i:j]\<close> slices
  bytes, so a Go string is a \<^typ>\<open>string\<close> (a list of 8-bit characters),
  \<open>len\<close> is \<^const>\<open>length\<close>, \<open>s[:k]\<close> is \<^term>\<open>take k s\<close> and
  \<open>s[k:]\<close> is \<^term>\<open>drop k s\<close>.
\<close>

text \<open>\<open>strings.HasPrefix(s, prefix)\<close>.\<close>

definition strings_HasPrefix :: "string \<Rightarrow> string \<Rightarrow> bool" where
  "strings_HasPrefix s p \<longleftrightarrow> length p \<le> length s \<and> take (length p) s = p"

text \<open>
  \<open>strings.LastIndex(s, substr)\<close>: the index of the last instance of \<open>substr\<close>
  in \<open>s\<close>, or \<open>-1\<close> when there is none.
\<close>

definition occursAt :: "string \<Rightarrow> string \<Rightarrow> nat \<Rightarrow> bool" where
  "occursAt s sub i \<longleftrightarrow> i + length sub \<le> length s \<and> take (length sub) (drop i s) = sub"

definition strings_LastIndex :: "string \<Rightarrow> string \<Rightarrow> int" where
  "strings_LastIndex s sub =
     (case filter (occursAt s sub) (rev [0..<Suc (length s)]) of
        [] \<Rightarrow> - 1
      | i # _ \<Rightarrow> int i)"

text \<open>\<open>strconv.Itoa\<close>: the decimal digits of an \<open>int\<close>, with a sign when negative.\<close>

definition digitChar :: "nat \<Rightarrow> char" where
  "digitChar d = ''0123456789'' ! d"

fun digits :: "nat \<Rightarrow> string" where
  "digits n = (if n < 10 then [digitChar n] else digits (n div 10) @ [digitChar (n mod 10)])"

declare digits.simps [simp del]

definition strconv_Itoa :: "int \<Rightarrow> string" where
  "strconv_Itoa i = (if i < 0 then CHR ''-'' # digits (nat (- i)) else digits (nat i))"

text \<open>
  \<open>bytes.TrimSpace\<close> and \<open>strings.ToLower\<close>, on ASCII: the white space is
  \<open>\t\<close>, \<open>\n\<close>, \<open>\v\<close>, \<open>\f\<close>, \<open>\r\<close> and the space, and the letters
  \<open>A\<close> to \<open>Z\<close> are lowered. Go also trims and lowers the characters beyond ASCII
  that Unicode classifies so; on such text these two definitions say less than Go does.
  No statement below depends on them there: the text that \<open>TrimSpace\<close> returns
  is only handed to the JSON parser, and \<open>ToLower\<close> is only compared with
  \<open>text\<close> and \<open>image\<close>.
\<close>

definition isSpace :: "char \<Rightarrow> bool" where
  "isSpace c \<longleftrightarrow> (of_char c :: nat) \<in> {9, 10, 11, 12, 13, 32}"

definition bytes_TrimSpace :: "string \<Rightarrow> string" where
  "bytes_TrimSpace s = rev (dropWhile isSpace (rev (dropWhile isSpace s)))"



section \<open>The identifier shortener\<close>

text \<open>\<open>const limit = 64\<close> in both \<open>shortenNameIfNeeded\<close> and \<open>buildShortNameMap\<close>.\<close>

definition limit :: int where
  "limit = 64"

text \<open>
  \<open>shortenNameIfNeeded\<close>: the shortening rule for a single name (the function the
  specification calls \<open>ShortenIfNeeded\<close>).
\<close>

definition shortenNameIfNeeded :: "string \<Rightarrow> string" where
  "shortenNameIfNeeded name =
     (if int (length name) \<le> limit then name
      else if strings_HasPrefix name ''mcp__'' then
        (let idx = strings_LastIndex name ''__'' in
         if idx > 0 then
           (let candidate = ''mcp__'' @ drop (nat (idx + 2)) name in
            if int (length candidate) > limit then take (nat limit) candidate else candidate)
         else take (nat limit) name)
      else take (nat limit) name)"

text \<open>
  \<open>buildShortNameMap\<close>, of the file \<open>codex_openai_request.go\<close>. Its closure
  \<open>baseCandidate\<close> repeats the rule above.
\<close>

definition baseCandidate :: "string \<Rightarrow> string" where
  "baseCandidate n =
     (if int (length n) \<le> limit then n
      else if strings_HasPrefix n ''mcp__'' then
        (let idx = strings_LastIndex n ''__'' in
         if idx > 0 then
           (let cand = ''mcp__'' @ drop (nat (idx + 2)) n;
                cand = (if int (length cand) > limit then take (nat limit) cand else cand)
            in cand)
         else take (nat limit) n)
      else take (nat limit) n)"

text \<open>
  The body of the loop \<open>for i := 1; ; i++\<close> of the closure \<open>makeUnique\<close> up to the
  test of \<open>used\<close>: the candidate tried at iteration \<open>i\<close>.
\<close>

definition suffixed :: "string \<Rightarrow> nat \<Rightarrow> string" where
  "suffixed base i =
     (let suffix = ''~'' @ strconv_Itoa (int i);
          allowed = limit - int (length suffix);
          allowed = (if allowed < 0 then 0 else allowed);
          tmp = base;
          tmp = (if int (length tmp) > allowed then take (nat allowed) tmp else tmp)
      in tmp @ suffix)"

subsection \<open>Decimal suffixes are pairwise different\<close>

text \<open>
  The collision loop below has no bound in the source. It ends because the candidates
  \<open>suffixed base 1\<close>, \<open>suffixed base 2\<close>, \<dots> are pairwise different (each ends in
  \<open>~\<close> followed by the decimal digits of its number, and a digit is never \<open>~\<close>) while
  \<open>used\<close> is a finite set. The facts about digits come first, since the termination
  proof needs them.
\<close>

lemma digitChar_neq_tilde: "d < 10 \<Longrightarrow> digitChar d \<noteq> CHR ''~''"
proof -
  assume "d < 10"
  then have "d \<in> {0,1,2,3,4,5,6,7,8,9}" by auto
  then show ?thesis by (auto simp: digitChar_def)
qed

lemma digitChar_inj: "a < 10 \<Longrightarrow> b < 10 \<Longrightarrow> digitChar a = digitChar b \<Longrightarrow> a = b"
proof -
  assume "a < 10" "b < 10" and e: "digitChar a = digitChar b"
  then have "a \<in> {0,1,2,3,4,5,6,7,8,9}" "b \<in> {0,1,2,3,4,5,6,7,8,9}" by auto
  with e show ?thesis by (auto simp: digitChar_def)
qed

lemma digits_ne: "digits n \<noteq> []"
  by (subst digits.simps) simp

lemma tilde_notin_digits: "CHR ''~'' \<notin> set (digits n)"
proof (induction n rule: digits.induct)
  case (1 n)
  show ?case
  proof (cases "n < 10")
    case True
    then show ?thesis by (subst digits.simps) (simp add: digitChar_neq_tilde[THEN not_sym])
  next
    case False
    with 1 show ?thesis by (subst digits.simps) (simp add: digitChar_neq_tilde[THEN not_sym])
  qed
qed

lemma digits_inj: "digits a = digits b \<Longrightarrow> a = b"
proof (induction a arbitrary: b rule: digits.induct)
  case (1 n)
  show ?case
  proof (cases "n < 10")
    case True
    then have dn: "digits n = [digitChar n]" by (subst digits.simps) simp
    show ?thesis
    proof (cases "b < 10")
      case True
      then have "digits b = [digitChar b]" by (subst digits.simps) simp
      with dn "1.prems" \<open>n < 10\<close> True show ?thesis by (simp add: digitChar_inj)
    next
      case False
      then have "digits b = digits (b div 10) @ [digitChar (b mod 10)]" by (subst digits.simps) simp
      with dn "1.prems" digits_ne[of "b div 10"] show ?thesis by (cases "digits (b div 10)") auto
    qed
  next
    case False
    then have dn: "digits n = digits (n div 10) @ [digitChar (n mod 10)]" by (subst digits.simps) simp
    show ?thesis
    proof (cases "b < 10")
      case True
      then have "digits b = [digitChar b]" by (subst digits.simps) simp
      with dn "1.prems" digits_ne[of "n div 10"] show ?thesis by (cases "digits (n div 10)") auto
    next
      case bF: False
      then have db: "digits b = digits (b div 10) @ [digitChar (b mod 10)]" by (subst digits.simps) simp
      from dn db "1.prems" have e1: "digits (n div 10) = digits (b div 10)" and e2: "digitChar (n mod 10) = digitChar (b mod 10)" by auto
      from "1.IH"[OF False e1] have "n div 10 = b div 10" .
      moreover from e2 have "n mod 10 = b mod 10" by (intro digitChar_inj) auto
      ultimately show ?thesis by (metis div_mult_mod_eq)
    qed
  qed
qed

lemma length_digits: "0 < k \<Longrightarrow> n < 10 ^ k \<Longrightarrow> length (digits n) \<le> k"
proof (induction n arbitrary: k rule: digits.induct)
  case (1 n)
  show ?case
  proof (cases "n < 10")
    case True
    then have "digits n = [digitChar n]" by (subst digits.simps) simp
    with "1.prems" show ?thesis by simp
  next
    case False
    then have dn: "digits n = digits (n div 10) @ [digitChar (n mod 10)]" by (subst digits.simps) simp
    from False "1.prems" have "1 < k" by (cases "k = 1") auto
    then obtain k' where k: "k = Suc k'" and "0 < k'" by (cases k) auto
    with "1.prems" have "n div 10 < 10 ^ k'" by (simp add: less_mult_imp_div_less mult.commute)
    from "1.IH"[OF False \<open>0 < k'\<close> this] dn k show ?thesis by simp
  qed
qed

lemma suffixed_eq: "suffixed base i = take (64 - Suc (length (digits i))) base @ CHR ''~'' # digits i"
  by (auto simp: suffixed_def Let_def limit_def strconv_Itoa_def nat_diff_distrib intro!: arg_cong2[where f=take])

lemma split_at_last_tilde:
  assumes "a @ CHR ''~'' # d1 = b @ CHR ''~'' # d2" "CHR ''~'' \<notin> set d1" "CHR ''~'' \<notin> set d2"
  shows "d1 = d2"
  using assms
proof (induction a arbitrary: b)
  case Nil
  then show ?case by (cases b) auto
next
  case (Cons x a)
  then show ?case by (cases b) auto
qed

lemma suffixed_inj: "suffixed base i = suffixed base j \<Longrightarrow> i = j"
  unfolding suffixed_eq
  by (rule digits_inj, erule split_at_last_tilde) (rule tilde_notin_digits)+

lemma length_suffixed: "i < 10 ^ 63 \<Longrightarrow> length (suffixed base i) \<le> 64"
  using length_digits[of 63 i] by (simp add: suffixed_eq)

lemma finite_tried: "finite {j. suffixed base j |\<in>| used}"
proof -
  have "inj (suffixed base)" by (rule injI) (rule suffixed_inj)
  then have "finite (suffixed base -` fset used)" by (intro finite_vimageI) auto
  then show ?thesis by (simp add: vimage_def)
qed

subsection \<open>The collision loop and the map\<close>

text \<open>
  The closure \<open>makeUnique\<close>. The set \<open>used\<close> is a Go \<open>map[string]struct{}\<close>, a finite
  set of strings. The loop variable \<open>i\<close> is a Go \<open>int\<close>; it is a natural number here,
  and \<open>makeUnique_loop_bounded\<close> below shows that the loop leaves at an \<open>i\<close> of at
  most the size of \<open>used\<close> plus one, so that \<open>i++\<close> cannot overflow on a set that fits
  in memory.
\<close>

function makeUnique_loop :: "string fset \<Rightarrow> string \<Rightarrow> nat \<Rightarrow> string" where
  "makeUnique_loop used base i =
     (let tmp = suffixed base i in
      if tmp |\<notin>| used then tmp else makeUnique_loop used base (i + 1))"
  by pat_completeness auto

termination
proof (relation "measure (\<lambda>(used, base, i). card {j. i \<le> j \<and> suffixed base j |\<in>| used})")
  show "wf (measure (\<lambda>(used, base, i). card {j. i \<le> j \<and> suffixed base j |\<in>| used}))" by simp
next
  fix used base i tmp
  assume "tmp = suffixed base i" "\<not> tmp |\<notin>| used"
  then have mem: "suffixed base i |\<in>| used" by simp
  have fin: "finite {j. i \<le> j \<and> suffixed base j |\<in>| used}"
    by (rule finite_subset[OF _ finite_tried[of base used]]) auto
  have "i \<in> {j. i \<le> j \<and> suffixed base j |\<in>| used}" "i \<notin> {j. i + 1 \<le> j \<and> suffixed base j |\<in>| used}"
    using mem by auto
  moreover have "{j. i + 1 \<le> j \<and> suffixed base j |\<in>| used} \<subseteq> {j. i \<le> j \<and> suffixed base j |\<in>| used}"
    by auto
  ultimately have "{j. i + 1 \<le> j \<and> suffixed base j |\<in>| used} \<subset> {j. i \<le> j \<and> suffixed base j |\<in>| used}"
    by blast
  then have "card {j. i + 1 \<le> j \<and> suffixed base j |\<in>| used} < card {j. i \<le> j \<and> suffixed base j |\<in>| used}"
    by (rule psubset_card_mono[OF fin])
  then show "((used, base, i + 1), (used, base, i)) \<in> measure (\<lambda>(used, base, i). card {j. i \<le> j \<and> suffixed base j |\<in>| used})"
    by simp
qed

declare makeUnique_loop.simps [simp del]

definition makeUnique :: "string fset \<Rightarrow> string \<Rightarrow> string" where
  "makeUnique used cand = (if cand |\<notin>| used then cand else (let base = cand in makeUnique_loop used base 1))"

fun buildShortNameMap_loop :: "string list \<Rightarrow> string fset \<Rightarrow> (string \<rightharpoonup> string) \<Rightarrow> (string \<rightharpoonup> string)" where
  "buildShortNameMap_loop [] used m = m"
| "buildShortNameMap_loop (n # ns) used m =
     (let cand = baseCandidate n;
          uniq = makeUnique used cand
      in buildShortNameMap_loop ns (finsert uniq used) (m(n \<mapsto> uniq)))"

definition buildShortNameMap :: "string list \<Rightarrow> (string \<rightharpoonup> string)" where
  "buildShortNameMap names = buildShortNameMap_loop names {||} Map.empty"
section \<open>JSON as the translators read and write it\<close>

text \<open>
  The translators never look at the characters of a JSON text. They read a document
  through the accessors of the \<open>gjson\<close> library, and they build documents with the
  \<open>sjson\<close> library and with \<open>encoding/json\<close>. These libraries are not part of the
  repository. Their two parsers are parameters of the model (the record \<open>lib\<close>
  below); a parsed document is a tree, and the accessors are functions on trees that
  follow the libraries' documented behaviour.
\<close>

subsection \<open>Documents read through gjson\<close>

text \<open>
  A number, as the code can observe it: what \<open>Result.String()\<close> returns for it, what
  \<open>Result.Int()\<close> returns for it (an \<open>int64\<close>), and whether its \<open>float64\<close> value
  \<open>Result.Num\<close> is finite. The value of a literal beyond the \<open>float64\<close> range, such
  as \<open>1e999\<close>, is not finite: \<open>strconv.ParseFloat\<close> reads it as an infinity.
\<close>

datatype number = Number (numString: string) (numInt: int) (numFinite: bool)

text \<open>
  A \<open>gjson.Result\<close>. \<open>RMissing\<close> is the zero \<open>Result\<close> that \<open>Get\<close> returns
  when there is no such value; an array and an object carry their raw text, which
  \<open>String()\<close> returns for them.
\<close>

datatype result =
    RMissing
  | RNull
  | RFalse
  | RTrue
  | RNumber number
  | RString string
  | RArray string "result list"
  | RObject string "(string \<times> result) list"

definition gjson_Exists :: "result \<Rightarrow> bool" where
  "gjson_Exists r \<longleftrightarrow> r \<noteq> RMissing"

definition gjson_IsArray :: "result \<Rightarrow> bool" where
  "gjson_IsArray r = (case r of RArray _ _ \<Rightarrow> True | _ \<Rightarrow> False)"


definition isString :: "result \<Rightarrow> bool" where
  "isString r = (case r of RString _ \<Rightarrow> True | _ \<Rightarrow> False)"

definition isNumber :: "result \<Rightarrow> bool" where
  "isNumber r = (case r of RNumber _ \<Rightarrow> True | _ \<Rightarrow> False)"

text \<open>
  \<open>Result.Get\<close> with a plain member name (every name the translators use is one:
  no digits, wildcards or modifiers), and with a dotted path of such names, written as
  the list of its parts: \<open>Get("a.b")\<close> is \<open>gjson_GetPath r [''a'', ''b'']\<close>. The first
  member of that name is the one found.
\<close>

definition gjson_Get :: "result \<Rightarrow> string \<Rightarrow> result" where
  "gjson_Get r key =
     (case r of
        RObject _ members \<Rightarrow> (case map_of members key of Some v \<Rightarrow> v | None \<Rightarrow> RMissing)
      | _ \<Rightarrow> RMissing)"

definition gjson_GetPath :: "result \<Rightarrow> string list \<Rightarrow> result" where
  "gjson_GetPath r path = fold (\<lambda>key r. gjson_Get r key) path r"

definition gjson_String :: "result \<Rightarrow> string" where
  "gjson_String r =
     (case r of
        RFalse \<Rightarrow> ''false''
      | RTrue \<Rightarrow> ''true''
      | RNumber n \<Rightarrow> numString n
      | RString s \<Rightarrow> s
      | RArray raw _ \<Rightarrow> raw
      | RObject raw _ \<Rightarrow> raw
      | _ \<Rightarrow> '''')"

text \<open>
  \<open>Result.Int()\<close>. On a string it is gjson's \<open>parseInt\<close>, whose accumulator is an
  \<open>int64\<close>: \<open>n = n*10 + digit\<close> wraps around.
\<close>

definition wrap64 :: "int \<Rightarrow> int" where
  "wrap64 x = (x + 2 ^ 63) mod 2 ^ 64 - 2 ^ 63"

fun parseIntDigits :: "string \<Rightarrow> int \<Rightarrow> int option" where
  "parseIntDigits [] n = Some n"
| "parseIntDigits (c # cs) n =
     (if (48::nat) \<le> of_char c \<and> of_char c \<le> (57::nat)
      then parseIntDigits cs (wrap64 (n * 10 + (int (of_char c) - 48)))
      else None)"

definition gjson_parseInt :: "string \<Rightarrow> int \<times> bool" where
  "gjson_parseInt s =
     (let sign = (s \<noteq> [] \<and> hd s = CHR ''-'');
          ds = (if sign then tl s else s)
      in if ds = [] then (0, False)
         else (case parseIntDigits ds 0 of
                 None \<Rightarrow> (0, False)
               | Some n \<Rightarrow> (if sign then (wrap64 (n * - 1), True) else (n, True))))"

definition gjson_Int :: "result \<Rightarrow> int" where
  "gjson_Int r =
     (case r of
        RTrue \<Rightarrow> 1
      | RString s \<Rightarrow> fst (gjson_parseInt s)
      | RNumber n \<Rightarrow> numInt n
      | _ \<Rightarrow> 0)"

definition gjson_Array :: "result \<Rightarrow> result list" where
  "gjson_Array r =
     (case r of
        RArray _ items \<Rightarrow> items
      | RMissing \<Rightarrow> []
      | RNull \<Rightarrow> []
      | _ \<Rightarrow> [r])"

subsection \<open>Documents written through sjson and encoding/json\<close>

text \<open>
  The documents the translators produce: the JSON texts edited with \<open>sjson\<close> and the
  Go values (\<open>map[string]interface{}\<close>, \<open>[]interface{}\<close>, strings, \<open>int64\<close>,
  \<open>float64\<close>, \<open>nil\<close>) handed to \<open>json.Marshal\<close>. A produced JSON text is
  represented by the document it denotes, and the empty string, which is no JSON
  text, by \<open>JEmpty\<close>. The members of an object are kept as a list; for a Go map their
  order carries no meaning.
\<close>

datatype json =
    JEmpty
  | JNull
  | JBool bool
  | JInt int
  | JFloat number
  | JString string
  | JArray "json list"
  | JObject "(string \<times> json) list"

text \<open>The Go assignment \<open>m[k] = v\<close> on a map kept as a list of members.\<close>

fun mapAssign :: "(string \<times> json) list \<Rightarrow> string \<Rightarrow> json \<Rightarrow> (string \<times> json) list" where
  "mapAssign [] k v = [(k, v)]"
| "mapAssign ((k', v') # kvs) k v =
     (if k' = k then (k, v) # kvs else (k', v') # mapAssign kvs k v)"

text \<open>\<open>Result.Value()\<close>: the Go value of a result; a number becomes its \<open>float64\<close>.\<close>

fun gjson_Value :: "result \<Rightarrow> json" where
  "gjson_Value RMissing = JNull"
| "gjson_Value RNull = JNull"
| "gjson_Value RFalse = JBool False"
| "gjson_Value RTrue = JBool True"
| "gjson_Value (RNumber n) = JFloat n"
| "gjson_Value (RString s) = JString s"
| "gjson_Value (RArray raw items) = JArray (map gjson_Value items)"
| "gjson_Value (RObject raw members) =
     JObject (fold (\<lambda>(k, v) m. mapAssign m k (gjson_Value v)) members [])"

text \<open>
  \<open>json.Marshal\<close> returns an error on a value it cannot encode. Among the values
  above these are the \<open>float64\<close> values that are not finite.
\<close>

fun marshalable :: "json \<Rightarrow> bool" where
  "marshalable (JFloat n) = numFinite n"
| "marshalable (JArray items) = (\<forall>v \<in> set items. marshalable v)"
| "marshalable (JObject members) = (\<forall>(k, v) \<in> set members. marshalable v)"
| "marshalable _ = True"

text \<open>
  \<open>sjson.Set\<close> with a path given as the list of its parts. A part names a member of
  an object, or is an index or \<open>-1\<close> (append) in an array; what is missing on the way
  is built (\<open>appendBuild\<close>), and a value that is no container is replaced by one. An
  array addressed by a name is an error, and the callers, which all drop the error
  (\<open>out, _ = sjson.Set(...)\<close>), are then left with the empty text.
\<close>

definition atoui :: "string \<Rightarrow> nat option" where
  "atoui part =
     (if \<forall>c \<in> set part. (48::nat) \<le> of_char c \<and> of_char c \<le> (57::nat)
      then Some (fold (\<lambda>c n. n * 10 + (of_char c - 48)) part 0)
      else None)"

fun appendBuild :: "string list \<Rightarrow> json \<Rightarrow> json" where
  "appendBuild [] v = v"
| "appendBuild (k # ks) v =
     (case atoui k of
        Some n \<Rightarrow> JArray (replicate n JNull @ [appendBuild ks v])
      | None \<Rightarrow>
          if k = ''-1'' then JArray [appendBuild ks v]
          else JObject [(k, appendBuild ks v)])"

fun replaceMember :: "(string \<times> json) list \<Rightarrow> string \<Rightarrow> json \<Rightarrow> (string \<times> json) list" where
  "replaceMember [] k v = []"
| "replaceMember ((k', v') # kvs) k v =
     (if k' = k then (k', v) # kvs else (k', v') # replaceMember kvs k v)"

fun setAt :: "json \<Rightarrow> string list \<Rightarrow> json \<Rightarrow> json option" where
  "setAt j [] v = Some v"
| "setAt (JObject members) (k # ks) v =
     (case map_of members k of
        Some old \<Rightarrow> map_option (\<lambda>new. JObject (replaceMember members k new)) (setAt old ks v)
      | None \<Rightarrow> Some (JObject (members @ [(k, appendBuild ks v)])))"
| "setAt (JArray items) (k # ks) v =
     (case atoui k of
        Some n \<Rightarrow>
          if n < length items
          then map_option (\<lambda>new. JArray (items[n := new])) (setAt (items ! n) ks v)
          else Some (JArray (items @ replicate (n - length items) JNull @ [appendBuild ks v]))
      | None \<Rightarrow>
          if k = ''-1'' then Some (JArray (items @ [appendBuild ks v])) else None)"
| "setAt j (k # ks) v =
     (case atoui k of
        Some n \<Rightarrow> Some (JArray (replicate n JNull @ [appendBuild ks v]))
      | None \<Rightarrow> Some (JObject [(k, appendBuild ks v)]))"

definition sjson_Set :: "json \<Rightarrow> string list \<Rightarrow> json \<Rightarrow> json" where
  "sjson_Set j path v =
     (if path = [] then JEmpty
      else case setAt j path v of Some j' \<Rightarrow> j' | None \<Rightarrow> JEmpty)"

text \<open>\<open>sjson.Delete\<close> of a member reached through objects; any other path changes nothing.\<close>

fun removeMember :: "(string \<times> json) list \<Rightarrow> string \<Rightarrow> (string \<times> json) list" where
  "removeMember [] k = []"
| "removeMember ((k', v') # kvs) k =
     (if k' = k then kvs else (k', v') # removeMember kvs k)"





text \<open>
  The parsers, as parameters: \<open>gjson.ParseBytes\<close> (also behind \<open>gjson.GetBytes\<close>),
  and \<open>json.Unmarshal\<close> into an \<open>interface{}\<close>, which returns the decoded value or
  an error (\<open>None\<close>).
\<close>

record lib =
  gjson_ParseBytes :: "string \<Rightarrow> result"
  json_Unmarshal :: "string \<Rightarrow> json option"
section \<open>Restoring tool names on the response path\<close>

text \<open>
  \<open>buildReverseMapFromClaudeOriginalShortToOriginal\<close>. It collects the non-empty
  \<open>name\<close> of every entry of the \<open>tools\<close> array of the original request
  (\<open>collectToolNames\<close> is its first loop), runs \<open>buildShortNameMap\<close> on them and
  turns the map around with \<open>for orig, short := range m { rev[short] = orig }\<close>
  (\<open>rangeAssign\<close>). Go visits the keys of a map in an unspecified order;
  \<open>rangeAssign\<close> takes the order as its first argument, the function below uses the
  order of first occurrence in \<open>names\<close>, and \<open>rangeAssign_order\<close> shows that here
  the order makes no difference. The \<open>buildShortNameMap\<close> it calls is the function
  of that name in its own package; the one embedded above, from the package of the
  Chat Completions translator, stands for it.
\<close>

fun collectToolNames :: "result list \<Rightarrow> string list" where
  "collectToolNames [] = []"
| "collectToolNames (t # ts) =
     (let n = gjson_String (gjson_Get t ''name'')
      in if n \<noteq> [] then n # collectToolNames ts else collectToolNames ts)"

fun rangeAssign :: "string list \<Rightarrow> (string \<rightharpoonup> string) \<Rightarrow> (string \<rightharpoonup> string) \<Rightarrow> (string \<rightharpoonup> string)" where
  "rangeAssign [] m revMap = revMap"
| "rangeAssign (orig # keys) m revMap =
     (case m orig of
        Some short \<Rightarrow> rangeAssign keys m (revMap(short \<mapsto> orig))
      | None \<Rightarrow> rangeAssign keys m revMap)"

definition buildReverseMapFromClaudeOriginalShortToOriginal :: "lib \<Rightarrow> string \<Rightarrow> (string \<rightharpoonup> string)" where
  "buildReverseMapFromClaudeOriginalShortToOriginal L original =
     (let tools = gjson_Get (gjson_ParseBytes L original) ''tools'';
          revMap = Map.empty
      in if \<not> gjson_IsArray tools then revMap
         else
           (let names = collectToolNames (gjson_Array tools)
            in if length names > 0
               then (let m = buildShortNameMap names in rangeAssign (remdups names) m revMap)
               else revMap))"

section \<open>The streaming converter\<close>

text \<open>
  \<open>ConvertCodexResponseToClaude\<close>. The Go function returns a slice of strings, and
  each string is a concatenation of Server-Sent Events, each written as
  \<open>event: NAME\<close>, \<open>data: JSON\<close> and an empty line. An event is the pair of its name
  and its data document, a returned string is the list of the events it holds (the
  empty string holds none), and the returned slice is a list of such lists. The state
  behind \<open>param *any\<close> is \<open>nil\<close> (\<open>None\<close>) or a pointer to a \<open>bool\<close>; the function
  returns the new state beside the slice. The context, the model name and the
  translated request are not used by the Go function and are left out.

  The templates are the JSON literals of the source.
\<close>

type_synonym sse = "string \<times> json"

definition dataTag :: string where
  "dataTag = ''data:''"

definition tmpl_message_start :: json where
  "tmpl_message_start =
     JObject [(''type'', JString ''message_start''),
       (''message'', JObject [(''id'', JString ''''), (''type'', JString ''message''),
          (''role'', JString ''assistant''), (''model'', JString ''claude-opus-4-1-20250805''),
          (''stop_sequence'', JNull),
          (''usage'', JObject [(''input_tokens'', JInt 0), (''output_tokens'', JInt 0)]),
          (''content'', JArray []), (''stop_reason'', JNull)])]"

definition tmpl_thinking_start :: json where
  "tmpl_thinking_start =
     JObject [(''type'', JString ''content_block_start''), (''index'', JInt 0),
       (''content_block'', JObject [(''type'', JString ''thinking''), (''thinking'', JString '''')])]"

definition tmpl_thinking_delta :: json where
  "tmpl_thinking_delta =
     JObject [(''type'', JString ''content_block_delta''), (''index'', JInt 0),
       (''delta'', JObject [(''type'', JString ''thinking_delta''), (''thinking'', JString '''')])]"

definition tmpl_block_stop :: json where
  "tmpl_block_stop = JObject [(''type'', JString ''content_block_stop''), (''index'', JInt 0)]"

definition tmpl_text_start :: json where
  "tmpl_text_start =
     JObject [(''type'', JString ''content_block_start''), (''index'', JInt 0),
       (''content_block'', JObject [(''type'', JString ''text''), (''text'', JString '''')])]"

definition tmpl_text_delta :: json where
  "tmpl_text_delta =
     JObject [(''type'', JString ''content_block_delta''), (''index'', JInt 0),
       (''delta'', JObject [(''type'', JString ''text_delta''), (''text'', JString '''')])]"

definition tmpl_message_delta :: json where
  "tmpl_message_delta =
     JObject [(''type'', JString ''message_delta''),
       (''delta'', JObject [(''stop_reason'', JString ''tool_use''), (''stop_sequence'', JNull)]),
       (''usage'', JObject [(''input_tokens'', JInt 0), (''output_tokens'', JInt 0)])]"

definition tmpl_message_stop :: json where
  "tmpl_message_stop = JObject [(''type'', JString ''message_stop'')]"

definition tmpl_tool_use_start :: json where
  "tmpl_tool_use_start =
     JObject [(''type'', JString ''content_block_start''), (''index'', JInt 0),
       (''content_block'', JObject [(''type'', JString ''tool_use''), (''id'', JString ''''),
          (''name'', JString ''''), (''input'', JObject [])])]"

definition tmpl_input_json_delta :: json where
  "tmpl_input_json_delta =
     JObject [(''type'', JString ''content_block_delta''), (''index'', JInt 0),
       (''delta'', JObject [(''type'', JString ''input_json_delta''), (''partial_json'', JString '''')])]"

definition ConvertCodexResponseToClaude ::
  "lib \<Rightarrow> string \<Rightarrow> string \<Rightarrow> bool option \<Rightarrow> sse list list \<times> bool option" where
  "ConvertCodexResponseToClaude L originalRequestRawJSON rawJSON param =
     (let param = (if param = None then Some False else param)
      in if \<not> strings_HasPrefix rawJSON dataTag then ([], param)
         else
          (let rawJSON = bytes_TrimSpace (drop 5 rawJSON);
               output = [];
               rootResult = gjson_ParseBytes L rawJSON;
               typeStr = gjson_String (gjson_Get rootResult ''type'')
           in
            if typeStr = ''response.created'' then
              (let template = tmpl_message_start;
                   template = sjson_Set template [''message'', ''model'']
                     (JString (gjson_String (gjson_GetPath rootResult [''response'', ''model''])));
                   template = sjson_Set template [''message'', ''id'']
                     (JString (gjson_String (gjson_GetPath rootResult [''response'', ''id''])));
                   output = [(''message_start'', template)]
               in ([output], param))
            else if typeStr = ''response.reasoning_summary_part.added'' then
              (let template = tmpl_thinking_start;
                   template = sjson_Set template [''index'']
                     (JInt (gjson_Int (gjson_Get rootResult ''output_index'')));
                   output = [(''content_block_start'', template)]
               in ([output], param))
            else if typeStr = ''response.reasoning_summary_text.delta'' then
              (let template = tmpl_thinking_delta;
                   template = sjson_Set template [''index'']
                     (JInt (gjson_Int (gjson_Get rootResult ''output_index'')));
                   template = sjson_Set template [''delta'', ''thinking'']
                     (JString (gjson_String (gjson_Get rootResult ''delta'')));
                   output = [(''content_block_delta'', template)]
               in ([output], param))
            else if typeStr = ''response.reasoning_summary_part.done'' then
              (let template = tmpl_block_stop;
                   template = sjson_Set template [''index'']
                     (JInt (gjson_Int (gjson_Get rootResult ''output_index'')));
                   output = [(''content_block_stop'', template)]
               in ([output], param))
            else if typeStr = ''response.content_part.added'' then
              (let template = tmpl_text_start;
                   template = sjson_Set template [''index'']
                     (JInt (gjson_Int (gjson_Get rootResult ''output_index'')));
                   output = [(''content_block_start'', template)]
               in ([output], param))
            else if typeStr = ''response.output_text.delta'' then
              (let template = tmpl_text_delta;
                   template = sjson_Set template [''index'']
                     (JInt (gjson_Int (gjson_Get rootResult ''output_index'')));
                   template = sjson_Set template [''delta'', ''text'']
                     (JString (gjson_String (gjson_Get rootResult ''delta'')));
                   output = [(''content_block_delta'', template)]
               in ([output], param))
            else if typeStr = ''response.content_part.done'' then
              (let template = tmpl_block_stop;
                   template = sjson_Set template [''index'']
                     (JInt (gjson_Int (gjson_Get rootResult ''output_index'')));
                   output = [(''content_block_stop'', template)]
               in ([output], param))
            else if typeStr = ''response.completed'' then
              (let template = tmpl_message_delta;
                   p = (param = Some True);
                   template = (if p then sjson_Set template [''delta'', ''stop_reason''] (JString ''tool_use'')
                               else sjson_Set template [''delta'', ''stop_reason''] (JString ''end_turn''));
                   template = sjson_Set template [''usage'', ''input_tokens'']
                     (JInt (gjson_Int (gjson_GetPath rootResult [''response'', ''usage'', ''input_tokens''])));
                   template = sjson_Set template [''usage'', ''output_tokens'']
                     (JInt (gjson_Int (gjson_GetPath rootResult [''response'', ''usage'', ''output_tokens''])));
                   output = [(''message_delta'', template)];
                   output = output @ [(''message_stop'', tmpl_message_stop)]
               in ([output], param))
            else if typeStr = ''response.output_item.added'' then
              (let itemResult = gjson_Get rootResult ''item'';
                   itemType = gjson_String (gjson_Get itemResult ''type'')
               in if itemType = ''function_call'' then
                    (let param = Some True;
                         template = tmpl_tool_use_start;
                         template = sjson_Set template [''index'']
                           (JInt (gjson_Int (gjson_Get rootResult ''output_index'')));
                         template = sjson_Set template [''content_block'', ''id'']
                           (JString (gjson_String (gjson_Get itemResult ''call_id'')));
                         name = gjson_String (gjson_Get itemResult ''name'');
                         revMap = buildReverseMapFromClaudeOriginalShortToOriginal L originalRequestRawJSON;
                         name = (case revMap name of Some orig \<Rightarrow> orig | None \<Rightarrow> name);
                         template = sjson_Set template [''content_block'', ''name''] (JString name);
                         output = [(''content_block_start'', template)];
                         template = tmpl_input_json_delta;
                         template = sjson_Set template [''index'']
                           (JInt (gjson_Int (gjson_Get rootResult ''output_index'')));
                         output = output @ [(''content_block_delta'', template)]
                     in ([output], param))
                  else ([output], param))
            else if typeStr = ''response.output_item.done'' then
              (let itemResult = gjson_Get rootResult ''item'';
                   itemType = gjson_String (gjson_Get itemResult ''type'')
               in if itemType = ''function_call'' then
                    (let template = tmpl_block_stop;
                         template = sjson_Set template [''index'']
                           (JInt (gjson_Int (gjson_Get rootResult ''output_index'')));
                         output = [(''content_block_stop'', template)]
                     in ([output], param))
                  else ([output], param))
            else if typeStr = ''response.function_call_arguments.delta'' then
              (let template = tmpl_input_json_delta;
                   template = sjson_Set template [''index'']
                     (JInt (gjson_Int (gjson_Get rootResult ''output_index'')));
                   template = sjson_Set template [''delta'', ''partial_json'']
                     (JString (gjson_String (gjson_Get rootResult ''delta'')));
                   output = output @ [(''content_block_delta'', template)]
               in ([output], param))
            else ([output], param)))"

text \<open>
  A streaming session: the caller feeds the lines in their order of arrival, with the
  same \<open>param\<close>, which starts as \<open>nil\<close>.
\<close>

fun runStream :: "lib \<Rightarrow> string \<Rightarrow> string list \<Rightarrow> bool option \<Rightarrow> sse list list list \<times> bool option" where
  "runStream L original [] param = ([], param)"
| "runStream L original (line # lines) param =
     (let (out, param) = ConvertCodexResponseToClaude L original line param;
          (outs, param) = runStream L original lines param
      in (out # outs, param))"
section \<open>The non-stream converter\<close>

text \<open>
  \<open>ConvertCodexResponseToClaudeNonStream\<close>. The closures handed to \<open>ForEach\<close> are
  definitions of their own: \<open>writePart\<close> (a part of a reasoning summary or content),
  \<open>textPart\<close> (a part of a message), \<open>outputItem\<close> (an output item, with the state
  \<open>contentBlocks\<close>, \<open>hasToolCall\<close> it updates). \<open>toolUseBlock\<close> is the block built in
  the case \<open>function_call\<close>, \<open>outputBlocks\<close> the loop over \<open>response.output\<close>, and
  \<open>claudeResponse\<close> the map \<open>response\<close> as it stands before \<open>json.Marshal\<close>. The
  result is the document returned, or \<open>JEmpty\<close> for the empty string.
\<close>

definition writePart :: "result \<Rightarrow> string \<Rightarrow> string" where
  "writePart part thinkingBuilder =
     (let txt = gjson_Get part ''text''
      in if gjson_Exists txt then thinkingBuilder @ gjson_String txt
         else thinkingBuilder @ gjson_String part)"

definition writeParts :: "result \<Rightarrow> string \<Rightarrow> string" where
  "writeParts r thinkingBuilder =
     (if gjson_Exists r then
        (if gjson_IsArray r then fold writePart (gjson_Array r) thinkingBuilder
         else thinkingBuilder @ gjson_String r)
      else thinkingBuilder)"

definition textPart :: "result \<Rightarrow> json list \<Rightarrow> json list" where
  "textPart part contentBlocks =
     (if gjson_String (gjson_Get part ''type'') = ''output_text'' then
        (let text = gjson_String (gjson_Get part ''text'')
         in if text \<noteq> [] then
              contentBlocks @ [JObject [(''type'', JString ''text''), (''text'', JString text)]]
            else contentBlocks)
      else contentBlocks)"

definition textParts :: "result \<Rightarrow> json list \<Rightarrow> json list" where
  "textParts content contentBlocks =
     (if gjson_Exists content then
        (if gjson_IsArray content then fold textPart (gjson_Array content) contentBlocks
         else
           (let text = gjson_String content
            in if text \<noteq> [] then
                 contentBlocks @ [JObject [(''type'', JString ''text''), (''text'', JString text)]]
               else contentBlocks))
      else contentBlocks)"

definition toolUseBlock :: "lib \<Rightarrow> (string \<rightharpoonup> string) \<Rightarrow> result \<Rightarrow> json" where
  "toolUseBlock L revNames item =
     (let name = gjson_String (gjson_Get item ''name'');
          name = (case revNames name of Some original \<Rightarrow> original | None \<Rightarrow> name);
          toolBlock = [(''type'', JString ''tool_use''),
                       (''id'', JString (gjson_String (gjson_Get item ''call_id''))),
                       (''name'', JString name),
                       (''input'', JObject [])];
          argsStr = gjson_String (gjson_Get item ''arguments'');
          toolBlock =
            (if argsStr \<noteq> [] then
               (case json_Unmarshal L argsStr of
                  Some args \<Rightarrow> mapAssign toolBlock ''input'' args
                | None \<Rightarrow> toolBlock)
             else toolBlock)
      in JObject toolBlock)"

definition outputItem :: "lib \<Rightarrow> (string \<rightharpoonup> string) \<Rightarrow> result \<Rightarrow> json list \<times> bool \<Rightarrow> json list \<times> bool" where
  "outputItem L revNames item state =
     (let (contentBlocks, hasToolCall) = state;
          itemType = gjson_String (gjson_Get item ''type'')
      in if itemType = ''reasoning'' then
           (let thinkingBuilder = [];
                thinkingBuilder = writeParts (gjson_Get item ''summary'') thinkingBuilder;
                thinkingBuilder =
                  (if length thinkingBuilder = 0
                   then writeParts (gjson_Get item ''content'') thinkingBuilder
                   else thinkingBuilder)
            in if length thinkingBuilder > 0 then
                 (contentBlocks @ [JObject [(''type'', JString ''thinking''),
                                            (''thinking'', JString thinkingBuilder)]], hasToolCall)
               else (contentBlocks, hasToolCall))
         else if itemType = ''message'' then
           (textParts (gjson_Get item ''content'') contentBlocks, hasToolCall)
         else if itemType = ''function_call'' then
           (contentBlocks @ [toolUseBlock L revNames item], True)
         else (contentBlocks, hasToolCall))"

definition outputBlocks :: "lib \<Rightarrow> (string \<rightharpoonup> string) \<Rightarrow> result \<Rightarrow> json list \<times> bool" where
  "outputBlocks L revNames responseData =
     (let contentBlocks = [];
          hasToolCall = False;
          output = gjson_Get responseData ''output''
      in if gjson_Exists output \<and> gjson_IsArray output
         then fold (outputItem L revNames) (gjson_Array output) (contentBlocks, hasToolCall)
         else (contentBlocks, hasToolCall))"

definition claudeResponse :: "lib \<Rightarrow> (string \<rightharpoonup> string) \<Rightarrow> result \<Rightarrow> (string \<times> json) list" where
  "claudeResponse L revNames responseData =
     (let response =
            [(''id'', JString (gjson_String (gjson_Get responseData ''id''))),
             (''type'', JString ''message''),
             (''role'', JString ''assistant''),
             (''model'', JString (gjson_String (gjson_Get responseData ''model''))),
             (''content'', JArray []),
             (''stop_reason'', JNull),
             (''stop_sequence'', JNull),
             (''usage'', JObject
                [(''input_tokens'', JInt (gjson_Int (gjson_GetPath responseData [''usage'', ''input_tokens'']))),
                 (''output_tokens'', JInt (gjson_Int (gjson_GetPath responseData [''usage'', ''output_tokens''])))])];
          (contentBlocks, hasToolCall) = outputBlocks L revNames responseData;
          response =
            (if length contentBlocks > 0
             then mapAssign response ''content'' (JArray contentBlocks) else response);
          stopReason = gjson_Get responseData ''stop_reason'';
          response =
            (if gjson_Exists stopReason \<and> gjson_String stopReason \<noteq> []
             then mapAssign response ''stop_reason'' (JString (gjson_String stopReason))
             else if hasToolCall
             then mapAssign response ''stop_reason'' (JString ''tool_use'')
             else mapAssign response ''stop_reason'' (JString ''end_turn''));
          stopSequence = gjson_Get responseData ''stop_sequence'';
          response =
            (if gjson_Exists stopSequence \<and> gjson_String stopSequence \<noteq> []
             then mapAssign response ''stop_sequence'' (gjson_Value stopSequence)
             else response);
          response =
            (if gjson_Exists (gjson_GetPath responseData [''usage'', ''input_tokens''])
                \<or> gjson_Exists (gjson_GetPath responseData [''usage'', ''output_tokens''])
             then mapAssign response ''usage'' (JObject
                [(''input_tokens'', JInt (gjson_Int (gjson_GetPath responseData [''usage'', ''input_tokens'']))),
                 (''output_tokens'', JInt (gjson_Int (gjson_GetPath responseData [''usage'', ''output_tokens''])))])
             else response)
      in response)"

definition ConvertCodexResponseToClaudeNonStream :: "lib \<Rightarrow> string \<Rightarrow> string \<Rightarrow> json" where
  "ConvertCodexResponseToClaudeNonStream L originalRequestRawJSON rawJSON =
     (let revNames = buildReverseMapFromClaudeOriginalShortToOriginal L originalRequestRawJSON;
          rootResult = gjson_ParseBytes L rawJSON
      in if gjson_String (gjson_Get rootResult ''type'') \<noteq> ''response.completed'' then JEmpty
         else
          (let responseData = gjson_Get rootResult ''response''
           in if \<not> gjson_Exists responseData then JEmpty
              else
               (let response = claudeResponse L revNames responseData
                in if \<not> marshalable (JObject response) then JEmpty
                   else JObject response)))"

section \<open>The OpenAI to Gemini request converter\<close>









section \<open>Properties of the identifier shortener\<close>

subsection \<open>The collision loop\<close>

lemma makeUnique_loop_exit:
  "\<exists>k\<ge>i. makeUnique_loop used base i = suffixed base k \<and> suffixed base k |\<notin>| used
          \<and> (\<forall>j. i \<le> j \<and> j < k \<longrightarrow> suffixed base j |\<in>| used)"
proof (induction used base i rule: makeUnique_loop.induct)
  case (1 used base i)
  show ?case
  proof (cases "suffixed base i |\<notin>| used")
    case True
    then have "makeUnique_loop used base i = suffixed base i"
      by (subst makeUnique_loop.simps) simp
    with True show ?thesis by (intro exI[of _ i]) auto
  next
    case False
    then have eq: "makeUnique_loop used base i = makeUnique_loop used base (i + 1)"
      by (subst makeUnique_loop.simps) simp
    from "1.IH"[OF refl] False obtain k where k: "k \<ge> i + 1"
      "makeUnique_loop used base (i + 1) = suffixed base k" "suffixed base k |\<notin>| used"
      "\<forall>j. i + 1 \<le> j \<and> j < k \<longrightarrow> suffixed base j |\<in>| used" by auto
    have "\<forall>j. i \<le> j \<and> j < k \<longrightarrow> suffixed base j |\<in>| used"
    proof (intro allI impI)
      fix j assume "i \<le> j \<and> j < k"
      then show "suffixed base j |\<in>| used" using k(4) False by (cases "j = i") auto
    qed
    with k eq show ?thesis by (intro exI[of _ k]) auto
  qed
qed

lemma tried_bound:
  assumes "\<forall>j. i \<le> j \<and> j < k \<longrightarrow> suffixed base j |\<in>| used"
  shows "k - i \<le> fcard used"
proof -
  have "suffixed base ` {i..<k} \<subseteq> fset used" using assms by auto
  then have "card (suffixed base ` {i..<k}) \<le> card (fset used)" by (intro card_mono) auto
  moreover have "card (suffixed base ` {i..<k}) = card {i..<k}"
    by (intro card_image inj_onI) (rule suffixed_inj)
  ultimately show ?thesis by (simp add: fcard.rep_eq)
qed

lemma makeUnique_loop_bounded:
  "\<exists>k. k \<le> fcard used \<and> makeUnique_loop used base 1 = suffixed base (Suc k)
       \<and> suffixed base (Suc k) |\<notin>| used \<and> (\<forall>j<k. suffixed base (Suc j) |\<in>| used)"
proof -
  from makeUnique_loop_exit[of 1 used base] obtain k where k: "k \<ge> 1"
    "makeUnique_loop used base 1 = suffixed base k" "suffixed base k |\<notin>| used"
    "\<forall>j. 1 \<le> j \<and> j < k \<longrightarrow> suffixed base j |\<in>| used" by auto
  from tried_bound[OF k(4)] have "k - 1 \<le> fcard used" .
  with k show ?thesis by (intro exI[of _ "k - 1"]) auto
qed

lemma makeUnique_fresh: "makeUnique used cand |\<notin>| used"
  using makeUnique_loop_bounded[of used cand] by (auto simp: makeUnique_def)

lemma length_baseCandidate: "length (baseCandidate n) \<le> 64"
  by (auto simp: baseCandidate_def Let_def limit_def)

lemma length_makeUnique:
  assumes "fcard used < 10 ^ 63 - 1" "length cand \<le> 64"
  shows "length (makeUnique used cand) \<le> 64"
proof (cases "cand |\<notin>| used")
  case True
  with assms show ?thesis by (simp add: makeUnique_def)
next
  case False
  from makeUnique_loop_bounded[of used cand] obtain k where
    k: "k \<le> fcard used" "makeUnique_loop used cand 1 = suffixed cand (Suc k)" by auto
  from k(1) assms(1) have "Suc k < 10 ^ 63" by simp
  from length_suffixed[OF this] k False show ?thesis by (simp add: makeUnique_def)
qed

subsection \<open>The loop over the names\<close>

lemma dom_buildShortNameMap_loop: "dom (buildShortNameMap_loop ns used m) = dom m \<union> set ns"
  by (induction ns arbitrary: used m) (auto simp: Let_def)

definition mapInv :: "string fset \<Rightarrow> (string \<rightharpoonup> string) \<Rightarrow> bool" where
  "mapInv used m \<longleftrightarrow> (\<forall>k v. m k = Some v \<longrightarrow> v |\<in>| used)
     \<and> (\<forall>k k' v. m k = Some v \<longrightarrow> m k' = Some v \<longrightarrow> k = k')"

lemma mapInv_step:
  assumes "mapInv used m" "uniq |\<notin>| used"
  shows "mapInv (finsert uniq used) (m(n \<mapsto> uniq))"
  using assms unfolding mapInv_def by (auto split: if_splits)

lemma inj_buildShortNameMap_loop:
  "mapInv used m \<Longrightarrow> buildShortNameMap_loop ns used m k = Some v
     \<Longrightarrow> buildShortNameMap_loop ns used m k' = Some v \<Longrightarrow> k = k'"
proof (induction ns arbitrary: used m)
  case Nil
  then show ?case by (auto simp: mapInv_def)
next
  case (Cons n ns)
  have "mapInv (finsert (makeUnique used (baseCandidate n)) used) (m(n \<mapsto> makeUnique used (baseCandidate n)))"
    by (rule mapInv_step[OF Cons.prems(1) makeUnique_fresh])
  from Cons.IH[OF this] Cons.prems(2,3) show ?case by (simp only: buildShortNameMap_loop.simps Let_def)
qed

lemma length_buildShortNameMap_loop:
  "\<forall>k v. m k = Some v \<longrightarrow> length v \<le> 64 \<Longrightarrow> fcard used + length ns < 10 ^ 63
     \<Longrightarrow> buildShortNameMap_loop ns used m k = Some v \<Longrightarrow> length v \<le> 64"
proof (induction ns arbitrary: used m)
  case Nil
  then show ?case by auto
next
  case (Cons n ns)
  let ?u = "makeUnique used (baseCandidate n)"
  from Cons.prems(2) have "fcard used < 10 ^ 63 - 1" by simp
  from length_makeUnique[OF this length_baseCandidate] have lu: "length ?u \<le> 64" .
  have 1: "\<forall>k v. (m(n \<mapsto> ?u)) k = Some v \<longrightarrow> length v \<le> 64"
    using Cons.prems(1) lu by auto
  have "fcard (finsert ?u used) = Suc (fcard used)"
    using makeUnique_fresh[of used "baseCandidate n"] by (simp add: fcard_finsert_disjoint)
  with Cons.prems(2) have 2: "fcard (finsert ?u used) + length ns < 10 ^ 63" by simp
  from Cons.IH[OF 1 2] Cons.prems(3) show ?case by (simp only: buildShortNameMap_loop.simps Let_def)
qed

lemma go_len_bound: "(n::nat) < 2 ^ 63 \<Longrightarrow> n < 10 ^ 63"
proof -
  assume "n < 2 ^ 63"
  moreover have "(2::nat) ^ 63 \<le> 10 ^ 63" by (rule power_mono) auto
  ultimately show ?thesis by linarith
qed


lemma buildShortNameMap_inj:
  "buildShortNameMap names k = Some v \<Longrightarrow> buildShortNameMap names k' = Some v \<Longrightarrow> k = k'"
proof -
  have "mapInv {||} Map.empty" by (simp add: mapInv_def)
  from inj_buildShortNameMap_loop[OF this] show
    "buildShortNameMap names k = Some v \<Longrightarrow> buildShortNameMap names k' = Some v \<Longrightarrow> k = k'"
    unfolding buildShortNameMap_def by blast
qed

lemma dom_buildShortNameMap: "dom (buildShortNameMap names) = set names"
  by (simp add: buildShortNameMap_def dom_buildShortNameMap_loop)


subsection \<open>The last occurrence of a separator\<close>

lemma filter_rev_upt_head:
  "filter P (rev [0..<m]) = i # rest \<Longrightarrow> P i \<and> i < m \<and> (\<forall>j<m. P j \<longrightarrow> j \<le> i)"
proof (induction m)
  case 0
  then show ?case by simp
next
  case (Suc m)
  show ?case
  proof (cases "P m")
    case True
    with Suc.prems have "i = m" by simp
    with True show ?thesis by auto
  next
    case False
    with Suc.prems have "filter P (rev [0..<m]) = i # rest" by simp
    from Suc.IH[OF this] False show ?thesis by (auto simp: less_Suc_eq)
  qed
qed

lemma filter_rev_upt_Nil: "filter P (rev [0..<m]) = [] \<Longrightarrow> j < m \<Longrightarrow> \<not> P j"
  by (auto simp: filter_empty_conv)

lemma occursAt_bound: "occursAt s sub j \<Longrightarrow> j < Suc (length s)"
  by (simp add: occursAt_def)

lemma LastIndex_none:
  assumes "strings_LastIndex s sub = - 1"
  shows "\<not> occursAt s sub j"
proof
  assume o: "occursAt s sub j"
  from assms have "filter (occursAt s sub) (rev [0..<Suc (length s)]) = []"
    unfolding strings_LastIndex_def by (simp del: upt_Suc split: list.splits)
  from filter_rev_upt_Nil[OF this occursAt_bound[OF o]] o show False by simp
qed

lemma LastIndex_some:
  assumes "strings_LastIndex s sub = int i"
  shows "occursAt s sub i \<and> (\<forall>j. occursAt s sub j \<longrightarrow> j \<le> i)"
proof -
  from assms obtain rest where "filter (occursAt s sub) (rev [0..<Suc (length s)]) = i # rest"
    unfolding strings_LastIndex_def by (simp del: upt_Suc split: list.splits)
  from filter_rev_upt_head[OF this] show ?thesis
    using occursAt_bound by blast
qed

lemma LastIndex_cases: "strings_LastIndex s sub = - 1 \<or> (\<exists>i. strings_LastIndex s sub = int i)"
  unfolding strings_LastIndex_def by (simp del: upt_Suc split: list.splits)

lemma occursAt_split:
  assumes "occursAt s sub i"
  shows "s = take i s @ sub @ drop (i + length sub) s"
proof -
  from assms have t: "take (length sub) (drop i s) = sub" by (simp add: occursAt_def)
  have "take (length sub) (drop i s) @ drop (length sub) (drop i s) = drop i s"
    by (rule append_take_drop_id)
  then have "drop i s = sub @ drop (i + length sub) s" unfolding t by (simp add: add.commute)
  moreover have "s = take i s @ drop i s" by simp
  ultimately show ?thesis by simp
qed

lemma occursAt_append: "occursAt (p @ sub @ r) sub (length p)"
  by (simp add: occursAt_def)

lemma mcp_LastIndex:
  assumes "strings_HasPrefix name ''mcp__''"
  obtains i where "strings_LastIndex name ''__'' = int i" "3 \<le> i" "occursAt name ''__'' i"
    "\<And>j. occursAt name ''__'' j \<Longrightarrow> j \<le> i"
proof -
  from assms have t: "take 5 name = ''mcp__''" by (simp add: strings_HasPrefix_def eval_nat_numeral)
  have "take 5 name @ drop 5 name = name" by (rule append_take_drop_id)
  then have "name = ''mcp'' @ ''__'' @ drop 5 name" unfolding t by simp
  then have "occursAt name ''__'' (length ''mcp'')" using occursAt_append[of "''mcp''" "''__''" "drop 5 name"] by simp
  then have o3: "occursAt name ''__'' 3" by (simp add: eval_nat_numeral)
  with LastIndex_none[of name "''__''" 3] LastIndex_cases[of name "''__''"]
  obtain i where i: "strings_LastIndex name ''__'' = int i" by auto
  from LastIndex_some[OF i] o3 have "3 \<le> i" "occursAt name ''__'' i" "\<And>j. occursAt name ''__'' j \<Longrightarrow> j \<le> i" by auto
  with i that show thesis by blast
qed

lemma baseCandidate_eq: "baseCandidate n = shortenNameIfNeeded n"
  by (simp add: baseCandidate_def shortenNameIfNeeded_def Let_def)

section \<open>Claims about the identifier shortener\<close>

definition longA :: string where
  "longA = replicate 64 CHR ''a''"

definition longMcp :: string where
  "longMcp = ''mcp__server__'' @ replicate 70 CHR ''b''"

text \<open>
  Claim C3. \<open>shortenNameIfNeeded\<close> (the specification's \<open>ShortenIfNeeded\<close>) returns a
  name of at most 64 characters unchanged. For a longer name that starts with
  \<open>mcp__\<close> it returns \<open>mcp__\<close> followed by the last \<open>__\<close>-delimited segment, cut
  to 64 characters; the segment is what follows the last occurrence of \<open>__\<close> in the
  name, that is the shortest \<open>seg\<close> with \<open>name = pre @ ''__'' @ seg\<close>. For any other
  longer name it returns the first 64 characters. (When the only \<open>__\<close> of a long name
  is the one of its prefix \<open>mcp__\<close>, the segment is the rest of the name and the
  result is again the first 64 characters.)
\<close>

theorem shortenNameIfNeeded_contract:
  "(length name \<le> 64 \<longrightarrow> shortenNameIfNeeded name = name)
   \<and> (64 < length name \<and> strings_HasPrefix name ''mcp__'' \<longrightarrow>
        (\<exists>pre seg. name = pre @ ''__'' @ seg
           \<and> (\<forall>p s. name = p @ ''__'' @ s \<longrightarrow> length seg \<le> length s)
           \<and> shortenNameIfNeeded name = take 64 (''mcp__'' @ seg)))
   \<and> (64 < length name \<and> \<not> strings_HasPrefix name ''mcp__'' \<longrightarrow>
        shortenNameIfNeeded name = take 64 name)"
proof (intro conjI impI)
  assume "length name \<le> 64"
  then show "shortenNameIfNeeded name = name" by (simp add: shortenNameIfNeeded_def limit_def)
next
  assume "64 < length name \<and> \<not> strings_HasPrefix name ''mcp__''"
  then show "shortenNameIfNeeded name = take 64 name" by (simp add: shortenNameIfNeeded_def limit_def)
next
  assume a: "64 < length name \<and> strings_HasPrefix name ''mcp__''"
  then obtain i where i: "strings_LastIndex name ''__'' = int i" "3 \<le> i" "occursAt name ''__'' i"
    "\<And>j. occursAt name ''__'' j \<Longrightarrow> j \<le> i" using mcp_LastIndex by blast
  let ?seg = "drop (i + 2) name"
  from occursAt_split[OF i(3)] have dec: "name = take i name @ ''__'' @ ?seg" by simp
  have minimal: "\<forall>p s. name = p @ ''__'' @ s \<longrightarrow> length ?seg \<le> length s"
  proof (intro allI impI)
    fix p s assume e: "name = p @ ''__'' @ s"
    have "occursAt name ''__'' (length p)" by (subst e) (rule occursAt_append)
    from i(4)[OF this] have "length p \<le> i" .
    moreover have "length name = length p + 2 + length s" by (subst e) simp
    ultimately show "length ?seg \<le> length s" by simp
  qed
  have "shortenNameIfNeeded name = take 64 (''mcp__'' @ ?seg)"
    using a i(1,2) by (simp add: shortenNameIfNeeded_def limit_def Let_def nat_add_distrib)
  with dec minimal show "\<exists>pre seg. name = pre @ ''__'' @ seg
           \<and> (\<forall>p s. name = p @ ''__'' @ s \<longrightarrow> length seg \<le> length s)
           \<and> shortenNameIfNeeded name = take 64 (''mcp__'' @ seg)" by blast
qed

text \<open>
  The contract at a short name, at a long \<open>mcp__\<close> name (83 characters, last segment
  of 70) and at a long name of another form.
\<close>

theorem shortenNameIfNeeded_contract_witness:
  "length ''mcp__server__tool'' \<le> 64
   \<and> shortenNameIfNeeded ''mcp__server__tool'' = ''mcp__server__tool''
   \<and> 64 < length longMcp \<and> strings_HasPrefix longMcp ''mcp__''
   \<and> (\<exists>pre seg. longMcp = pre @ ''__'' @ seg
         \<and> (\<forall>p s. longMcp = p @ ''__'' @ s \<longrightarrow> length seg \<le> length s)
         \<and> shortenNameIfNeeded longMcp = take 64 (''mcp__'' @ seg))
   \<and> shortenNameIfNeeded longMcp = ''mcp__'' @ replicate 59 CHR ''b''
   \<and> 64 < length (longA @ ''xyz'') \<and> \<not> strings_HasPrefix (longA @ ''xyz'') ''mcp__''
   \<and> shortenNameIfNeeded (longA @ ''xyz'') = take 64 (longA @ ''xyz'')"
proof -
  have h1: "length ''mcp__server__tool'' \<le> 64" by simp
  have h2: "64 < length longMcp \<and> strings_HasPrefix longMcp ''mcp__''"
    by (simp add: longMcp_def strings_HasPrefix_def)
  have h3: "64 < length (longA @ ''xyz'') \<and> \<not> strings_HasPrefix (longA @ ''xyz'') ''mcp__''"
    by (simp add: longA_def strings_HasPrefix_def eval_nat_numeral)
  have v: "shortenNameIfNeeded longMcp = ''mcp__'' @ replicate 59 CHR ''b''" by code_simp
  from shortenNameIfNeeded_contract[of "''mcp__server__tool''"] h1
  have c1: "shortenNameIfNeeded ''mcp__server__tool'' = ''mcp__server__tool''" by blast
  from shortenNameIfNeeded_contract[of longMcp] h2
  have c2: "\<exists>pre seg. longMcp = pre @ ''__'' @ seg
         \<and> (\<forall>p s. longMcp = p @ ''__'' @ s \<longrightarrow> length seg \<le> length s)
         \<and> shortenNameIfNeeded longMcp = take 64 (''mcp__'' @ seg)" by blast
  from shortenNameIfNeeded_contract[of "longA @ ''xyz''"] h3
  have c3: "shortenNameIfNeeded (longA @ ''xyz'') = take 64 (longA @ ''xyz'')" by blast
  from h1 h2 h3 v c1 c2 c3 show ?thesis by blast
qed

text \<open>
  Claim C1. For every list of names (a Go slice, so of a length below \<open>2^63\<close>),
  with or without repeated names, the map of \<open>buildShortNameMap\<close> is total (its
  keys are exactly the names of the list), every value has at most 64 characters,
  different names have different values, and the map is a function of the ordered
  list alone.
\<close>

theorem buildShortNameMap_total_short_distinct:
  assumes "length names < 2 ^ 63"
  shows "dom (buildShortNameMap names) = set names
    \<and> (\<forall>n \<in> set names. \<exists>s. buildShortNameMap names n = Some s \<and> length s \<le> 64)
    \<and> (\<forall>a \<in> set names. \<forall>b \<in> set names. a \<noteq> b \<longrightarrow> buildShortNameMap names a \<noteq> buildShortNameMap names b)
    \<and> (\<forall>names'. names' = names \<longrightarrow> buildShortNameMap names' = buildShortNameMap names)"
proof (intro conjI)
  show d: "dom (buildShortNameMap names) = set names"
    by (rule dom_buildShortNameMap)
  show "\<forall>n \<in> set names. \<exists>s. buildShortNameMap names n = Some s \<and> length s \<le> 64"
  proof
    fix n assume "n \<in> set names"
    with d obtain s where s: "buildShortNameMap names n = Some s" by blast
    have "fcard {||} + length names < 10 ^ 63" using go_len_bound[OF assms] by (simp add: fcard_fempty)
    from length_buildShortNameMap_loop[OF _ this s[unfolded buildShortNameMap_def]]
    have "length s \<le> 64" by simp
    with s show "\<exists>s. buildShortNameMap names n = Some s \<and> length s \<le> 64" by blast
  qed
  show "\<forall>a \<in> set names. \<forall>b \<in> set names. a \<noteq> b \<longrightarrow> buildShortNameMap names a \<noteq> buildShortNameMap names b"
  proof (intro ballI impI notI)
    fix a b assume ab: "a \<in> set names" "b \<in> set names" "a \<noteq> b" "buildShortNameMap names a = buildShortNameMap names b"
    from d ab(1) obtain s where s: "buildShortNameMap names a = Some s" by blast
    with ab(4) have "buildShortNameMap names b = Some s" by simp
    from buildShortNameMap_inj[OF s this] ab(3) show False by simp
  qed
  show "\<forall>names'. names' = names \<longrightarrow> buildShortNameMap names' = buildShortNameMap names" by simp
qed

text \<open>
  Two names of 65 characters that share their first 64, and a name given twice: the
  second long name gets the suffix \<open>~1\<close> on a base cut to 62 characters, and the
  repeated name \<open>x\<close> ends with the value of its second occurrence.
\<close>

theorem buildShortNameMap_total_short_distinct_witness:
  "length [longA @ ''1'', longA @ ''2'', ''x'', ''x''] < (2::nat) ^ 63
   \<and> dom (buildShortNameMap [longA @ ''1'', longA @ ''2'', ''x'', ''x''])
       = set [longA @ ''1'', longA @ ''2'', ''x'', ''x'']
   \<and> (\<exists>s. buildShortNameMap [longA @ ''1'', longA @ ''2'', ''x'', ''x''] (longA @ ''2'') = Some s
         \<and> length s \<le> 64)
   \<and> buildShortNameMap [longA @ ''1'', longA @ ''2'', ''x'', ''x''] (longA @ ''1'')
       \<noteq> buildShortNameMap [longA @ ''1'', longA @ ''2'', ''x'', ''x''] (longA @ ''2'')
   \<and> map (buildShortNameMap [longA @ ''1'', longA @ ''2'', ''x'', ''x''])
        [longA @ ''1'', longA @ ''2'', ''x'']
       = [Some longA, Some (replicate 62 CHR ''a'' @ ''~1''), Some ''x~1'']"
proof -
  let ?ns = "[longA @ ''1'', longA @ ''2'', ''x'', ''x'']"
  have h: "length ?ns < (2::nat) ^ 63" by simp
  have ne: "longA @ ''1'' \<noteq> longA @ ''2''" by simp
  have v: "map (buildShortNameMap ?ns) [longA @ ''1'', longA @ ''2'', ''x'']
       = [Some longA, Some (replicate 62 CHR ''a'' @ ''~1''), Some ''x~1'']"
    by code_simp
  from buildShortNameMap_total_short_distinct[OF h] ne
  have "dom (buildShortNameMap ?ns) = set ?ns"
    and "\<exists>s. buildShortNameMap ?ns (longA @ ''2'') = Some s \<and> length s \<le> 64"
    and "buildShortNameMap ?ns (longA @ ''1'') \<noteq> buildShortNameMap ?ns (longA @ ''2'')"
    by simp_all
  with h v show ?thesis by blast
qed

text \<open>
  Claim C9. The collision loop of \<open>makeUnique\<close> ends: started at \<open>i = 1\<close> on a set
  \<open>used\<close>, it returns at an iteration \<open>k + 1\<close> with \<open>k\<close> at most the number of
  elements of \<open>used\<close>; it returns the candidate of that iteration, which is not in
  \<open>used\<close>, after the candidates of all iterations before were found in \<open>used\<close>.
  The loop of \<open>buildShortNameMap\<close> over the names runs once per name
  (\<open>buildShortNameMap_loop\<close> is a recursion on the list), with a set \<open>used\<close> that has
  at most one element per name handled before, so every call terminates.
\<close>

theorem makeUnique_loop_terminates:
  "\<exists>k\<le>fcard used. makeUnique_loop used base 1 = suffixed base (Suc k)
      \<and> suffixed base (Suc k) |\<notin>| used
      \<and> (\<forall>j<k. suffixed base (Suc j) |\<in>| used)"
  using makeUnique_loop_bounded[of used base] by blast

theorem makeUnique_loop_terminates_witness:
  "makeUnique_loop {|''a'', ''a~1'', ''b''|} ''a'' 1 = ''a~2''
   \<and> (\<exists>k\<le>fcard {|''a'', ''a~1'', ''b''|}.
        makeUnique_loop {|''a'', ''a~1'', ''b''|} ''a'' 1 = suffixed ''a'' (Suc k)
        \<and> suffixed ''a'' (Suc k) |\<notin>| {|''a'', ''a~1'', ''b''|}
        \<and> (\<forall>j<k. suffixed ''a'' (Suc j) |\<in>| {|''a'', ''a~1'', ''b''|}))"
proof
  show "makeUnique_loop {|''a'', ''a~1'', ''b''|} ''a'' 1 = ''a~2''" by code_simp
  show "\<exists>k\<le>fcard {|''a'', ''a~1'', ''b''|}.
        makeUnique_loop {|''a'', ''a~1'', ''b''|} ''a'' 1 = suffixed ''a'' (Suc k)
        \<and> suffixed ''a'' (Suc k) |\<notin>| {|''a'', ''a~1'', ''b''|}
        \<and> (\<forall>j<k. suffixed ''a'' (Suc j) |\<in>| {|''a'', ''a~1'', ''b''|})"
    by (rule makeUnique_loop_terminates)
qed

section \<open>Properties of the reverse tool-name map\<close>

lemma rangeAssign_None:
  "\<forall>k \<in> set keys. m k \<noteq> Some s \<Longrightarrow> rangeAssign keys m revMap s = revMap s"
proof (induction keys arbitrary: revMap)
  case Nil
  then show ?case by simp
next
  case (Cons orig keys)
  then show ?case by (cases "m orig") auto
qed

lemma rangeAssign_Some:
  assumes inj: "\<And>k k' v. m k = Some v \<Longrightarrow> m k' = Some v \<Longrightarrow> k = k'"
  shows "k \<in> set keys \<Longrightarrow> m k = Some s \<Longrightarrow> rangeAssign keys m revMap s = Some k"
proof (induction keys arbitrary: revMap)
  case Nil
  then show ?case by simp
next
  case (Cons orig keys)
  show ?case
  proof (cases "k \<in> set keys")
    case True
    from Cons.IH[OF True Cons.prems(2)] show ?thesis by (cases "m orig") auto
  next
    case False
    with Cons.prems have ko: "k = orig" by simp
    have "\<forall>k' \<in> set keys. m k' \<noteq> Some s"
    proof
      fix k' assume k': "k' \<in> set keys"
      show "m k' \<noteq> Some s"
      proof
        assume "m k' = Some s"
        from inj[OF this Cons.prems(2)] k' False show False by simp
      qed
    qed
    from rangeAssign_None[OF this] Cons.prems(2) ko show ?thesis by simp
  qed
qed

lemma rangeAssign_order:
  assumes inj: "\<And>k k' v. m k = Some v \<Longrightarrow> m k' = Some v \<Longrightarrow> k = k'"
    and "set keys = set keys'"
  shows "rangeAssign keys m revMap = rangeAssign keys' m revMap"
proof
  fix s
  show "rangeAssign keys m revMap s = rangeAssign keys' m revMap s"
  proof (cases "\<exists>k \<in> set keys. m k = Some s")
    case True
    then obtain k where k: "k \<in> set keys" "m k = Some s" by blast
    from k assms(2) have k': "k \<in> set keys'" by simp
    from rangeAssign_Some[of m, OF inj k] rangeAssign_Some[of m, OF inj k' k(2)]
    show ?thesis by simp
  next
    case False
    then have 1: "\<forall>k \<in> set keys. m k \<noteq> Some s" by blast
    with assms(2) have 2: "\<forall>k \<in> set keys'. m k \<noteq> Some s" by simp
    from rangeAssign_None[OF 1] rangeAssign_None[OF 2] show ?thesis by simp
  qed
qed


lemma buildReverseMap_eq:
  assumes "gjson_IsArray (gjson_Get (gjson_ParseBytes L original) ''tools'')"
    and "names = collectToolNames (gjson_Array (gjson_Get (gjson_ParseBytes L original) ''tools''))"
  shows "buildReverseMapFromClaudeOriginalShortToOriginal L original
           = rangeAssign (remdups names) (buildShortNameMap names) Map.empty"
proof (cases "names = []")
  case True
  with assms show ?thesis by (simp add: buildReverseMapFromClaudeOriginalShortToOriginal_def Let_def)
next
  case False
  with assms show ?thesis by (simp add: buildReverseMapFromClaudeOriginalShortToOriginal_def Let_def)
qed


section \<open>Properties of the streaming converter\<close>

text \<open>
  The document of a data line, as the converter parses it, and the lines on which it
  records a tool call in the state: the data lines of type
  \<open>response.output_item.added\<close> whose item is a \<open>function_call\<close>.
\<close>

definition lineRoot :: "lib \<Rightarrow> string \<Rightarrow> result" where
  "lineRoot L line = gjson_ParseBytes L (bytes_TrimSpace (drop 5 line))"

definition functionCallAdded :: "lib \<Rightarrow> string \<Rightarrow> bool" where
  "functionCallAdded L line \<longleftrightarrow>
     strings_HasPrefix line dataTag
     \<and> gjson_String (gjson_Get (lineRoot L line) ''type'') = ''response.output_item.added''
     \<and> gjson_String (gjson_Get (gjson_Get (lineRoot L line) ''item'') ''type'') = ''function_call''"

lemma convert_completed:
  assumes "strings_HasPrefix line dataTag"
    and "gjson_String (gjson_Get (lineRoot L line) ''type'') = ''response.completed''"
  shows "ConvertCodexResponseToClaude L original line param =
     ([[(''message_delta'',
         JObject [(''type'', JString ''message_delta''),
           (''delta'', JObject [(''stop_reason'', JString (if param = Some True then ''tool_use'' else ''end_turn'')),
                                (''stop_sequence'', JNull)]),
           (''usage'', JObject
              [(''input_tokens'', JInt (gjson_Int (gjson_GetPath (lineRoot L line) [''response'', ''usage'', ''input_tokens'']))),
               (''output_tokens'', JInt (gjson_Int (gjson_GetPath (lineRoot L line) [''response'', ''usage'', ''output_tokens''])))])]),
        (''message_stop'', JObject [(''type'', JString ''message_stop'')])]],
      if param = None then Some False else param)"
  using assms
  by (simp add: ConvertCodexResponseToClaude_def lineRoot_def Let_def tmpl_message_delta_def
      tmpl_message_stop_def sjson_Set_def)

lemma convert_state:
  "snd (ConvertCodexResponseToClaude L original line param) =
     (if functionCallAdded L line then Some True
      else if param = None then Some False else param)"
  by (simp add: ConvertCodexResponseToClaude_def functionCallAdded_def lineRoot_def Let_def)

lemma runStream_snd_Cons:
  "snd (runStream L original (line # lines) param)
     = snd (runStream L original lines (snd (ConvertCodexResponseToClaude L original line param)))"
  by (simp add: split_beta Let_def)

lemma runStream_state:
  "snd (runStream L original lines param) = Some True
     \<longleftrightarrow> param = Some True \<or> (\<exists>l \<in> set lines. functionCallAdded L l)"
proof (induction lines arbitrary: param)
  case Nil
  then show ?case by simp
next
  case (Cons line lines)
  show ?case
    unfolding runStream_snd_Cons Cons.IH convert_state by auto
qed

text \<open>The eleven event types the converter has a branch for.\<close>

definition knownTypes :: "string set" where
  "knownTypes = {''response.created'', ''response.reasoning_summary_part.added'',
     ''response.reasoning_summary_text.delta'', ''response.reasoning_summary_part.done'',
     ''response.content_part.added'', ''response.output_text.delta'',
     ''response.content_part.done'', ''response.completed'', ''response.output_item.added'',
     ''response.output_item.done'', ''response.function_call_arguments.delta''}"


section \<open>Properties of the non-stream converter\<close>

text \<open>
  What \<open>json.Unmarshal\<close> guarantees about the values it returns: they can be
  encoded again (a number beyond the \<open>float64\<close> range is a decoding error).
\<close>

definition unmarshalFinite :: "lib \<Rightarrow> bool" where
  "unmarshalFinite L \<longleftrightarrow> (\<forall>s v. json_Unmarshal L s = Some v \<longrightarrow> marshalable v)"

lemma fold_invariant:
  assumes "\<And>x s. P s \<Longrightarrow> P (f x s)" "P s"
  shows "P (fold f xs s)"
  using assms(2) by (induction xs arbitrary: s) (auto intro: assms(1))

lemma textPart_marshalable:
  "\<forall>b \<in> set blocks. marshalable b \<Longrightarrow> \<forall>b \<in> set (textPart part blocks). marshalable b"
  by (auto simp: textPart_def Let_def)

lemma textParts_marshalable:
  assumes "\<forall>b \<in> set blocks. marshalable b"
  shows "\<forall>b \<in> set (textParts content blocks). marshalable b"
proof -
  have "\<forall>b \<in> set (fold textPart (gjson_Array content) blocks). marshalable b"
  proof (rule fold_invariant[where P="\<lambda>bs. \<forall>b \<in> set bs. marshalable b"])
    show "\<And>x s. \<forall>b \<in> set s. marshalable b \<Longrightarrow> \<forall>b \<in> set (textPart x s). marshalable b"
      by (rule textPart_marshalable)
    show "\<forall>b \<in> set blocks. marshalable b" by (rule assms)
  qed
  with assms show ?thesis by (auto simp: textParts_def Let_def)
qed



lemma mapAssign_set: "set (mapAssign kvs k v) \<subseteq> insert (k, v) (set kvs)"
  by (induction kvs) (auto split: if_splits)

lemma mapAssign_mem: "(k, v) \<in> set (mapAssign kvs k v)"
  by (induction kvs) auto

lemma toolUseBlock_marshalable: "unmarshalFinite L \<Longrightarrow> marshalable (toolUseBlock L revNames item)"
  by (auto simp: toolUseBlock_def Let_def unmarshalFinite_def split: option.splits)

lemma outputItem_marshalable:
  assumes "unmarshalFinite L" "\<forall>b \<in> set (fst st). marshalable b"
  shows "\<forall>b \<in> set (fst (outputItem L revNames item st)). marshalable b"
proof -
  obtain cb h where st: "st = (cb, h)" by (cases st)
  with assms(2) have cb: "\<forall>b \<in> set cb. marshalable b" by simp
  show ?thesis
    unfolding st outputItem_def
    using cb textParts_marshalable[OF cb] toolUseBlock_marshalable[OF assms(1)]
    by (auto simp: Let_def)
qed


lemma fold_outputItem_marshalable:
  assumes "unmarshalFinite L"
  shows "\<forall>b \<in> set (fst st). marshalable b \<Longrightarrow>
         \<forall>b \<in> set (fst (fold (outputItem L revNames) items st)). marshalable b"
proof (induction items arbitrary: st)
  case Nil
  then show ?case by simp
next
  case (Cons item items)
  from outputItem_marshalable[OF assms Cons.prems]
  have "\<forall>b \<in> set (fst (outputItem L revNames item st)). marshalable b" .
  from Cons.IH[OF this] show ?case by simp
qed



lemma marshalable_mapAssign:
  "marshalable (JObject kvs) \<Longrightarrow> marshalable v \<Longrightarrow> marshalable (JObject (mapAssign kvs k v))"
  using mapAssign_set[of kvs k v] by auto

lemma marshalable_mapAssign_value:
  "marshalable (JObject (mapAssign kvs k v)) \<Longrightarrow> marshalable v"
  using mapAssign_mem[of k v kvs] by auto

lemma mapAssign_keeps: "(k, v) \<in> set kvs \<Longrightarrow> k' \<noteq> k \<Longrightarrow> (k, v) \<in> set (mapAssign kvs k' v')"
  by (induction kvs) auto


lemma outputBlocks_marshalable:
  assumes "unmarshalFinite L"
  shows "\<forall>b \<in> set (fst (outputBlocks L revNames responseData)). marshalable b"
  unfolding outputBlocks_def Let_def
  using fold_outputItem_marshalable[OF assms, of "([], False)" revNames]
  by simp



lemma claudeResponse_marshalable:
  assumes "unmarshalFinite L"
  shows "marshalable (JObject (claudeResponse L revNames responseData)) \<longleftrightarrow>
     \<not> (gjson_Exists (gjson_Get responseData ''stop_sequence'')
        \<and> gjson_String (gjson_Get responseData ''stop_sequence'') \<noteq> []
        \<and> \<not> marshalable (gjson_Value (gjson_Get responseData ''stop_sequence'')))"
proof -
  obtain cb h where o: "outputBlocks L revNames responseData = (cb, h)"
    by (cases "outputBlocks L revNames responseData")
  from outputBlocks_marshalable[OF assms, of revNames responseData] o
  have cb: "marshalable (JArray cb)" by simp
  define r1 where "r1 = [(''id'', JString (gjson_String (gjson_Get responseData ''id''))),
             (''type'', JString ''message''),
             (''role'', JString ''assistant''),
             (''model'', JString (gjson_String (gjson_Get responseData ''model''))),
             (''content'', JArray []),
             (''stop_reason'', JNull),
             (''stop_sequence'', JNull),
             (''usage'', JObject
                [(''input_tokens'', JInt (gjson_Int (gjson_GetPath responseData [''usage'', ''input_tokens'']))),
                 (''output_tokens'', JInt (gjson_Int (gjson_GetPath responseData [''usage'', ''output_tokens''])))])]"
  define r2 where "r2 = (if length cb > 0 then mapAssign r1 ''content'' (JArray cb) else r1)"
  define r3 where "r3 = (if gjson_Exists (gjson_Get responseData ''stop_reason'') \<and> gjson_String (gjson_Get responseData ''stop_reason'') \<noteq> []
             then mapAssign r2 ''stop_reason'' (JString (gjson_String (gjson_Get responseData ''stop_reason'')))
             else if h
             then mapAssign r2 ''stop_reason'' (JString ''tool_use'')
             else mapAssign r2 ''stop_reason'' (JString ''end_turn''))"
  define c where "c \<longleftrightarrow> gjson_Exists (gjson_Get responseData ''stop_sequence'')
        \<and> gjson_String (gjson_Get responseData ''stop_sequence'') \<noteq> []"
  define r4 where "r4 = (if c then mapAssign r3 ''stop_sequence'' (gjson_Value (gjson_Get responseData ''stop_sequence'')) else r3)"
  define r5 where "r5 = (if gjson_Exists (gjson_GetPath responseData [''usage'', ''input_tokens''])
                \<or> gjson_Exists (gjson_GetPath responseData [''usage'', ''output_tokens''])
             then mapAssign r4 ''usage'' (JObject
                [(''input_tokens'', JInt (gjson_Int (gjson_GetPath responseData [''usage'', ''input_tokens'']))),
                 (''output_tokens'', JInt (gjson_Int (gjson_GetPath responseData [''usage'', ''output_tokens''])))])
             else r4)"
  have eq: "claudeResponse L revNames responseData = r5"
    unfolding claudeResponse_def o r5_def r4_def c_def r3_def r2_def r1_def
    by (simp only: Let_def split_conv)
  have m1: "marshalable (JObject r1)" by (simp add: r1_def)
  have m2: "marshalable (JObject r2)" unfolding r2_def using m1 cb
    by (simp add: marshalable_mapAssign del: marshalable.simps(3))
  have m3: "marshalable (JObject r3)" unfolding r3_def using m2
    by (simp add: marshalable_mapAssign del: marshalable.simps(3))
  have m4: "marshalable (JObject r4) \<longleftrightarrow> (c \<longrightarrow> marshalable (gjson_Value (gjson_Get responseData ''stop_sequence'')))"
  proof (cases c)
    case True
    with m3 show ?thesis unfolding r4_def
      using marshalable_mapAssign[of r3 "gjson_Value (gjson_Get responseData ''stop_sequence'')" "''stop_sequence''"]
        marshalable_mapAssign_value[of r3 "''stop_sequence''" "gjson_Value (gjson_Get responseData ''stop_sequence'')"]
      by (auto simp del: marshalable.simps(3))
  next
    case False
    with m3 show ?thesis unfolding r4_def by simp
  qed
  have m5: "marshalable (JObject r5) \<longleftrightarrow> marshalable (JObject r4)"
  proof
    assume "marshalable (JObject r4)"
    moreover have "\<And>a b. marshalable (JObject [(''input_tokens'', JInt a), (''output_tokens'', JInt b)])"
      by simp
    ultimately show "marshalable (JObject r5)" unfolding r5_def
      by (simp add: marshalable_mapAssign del: marshalable.simps(3))
  next
    assume a: "marshalable (JObject r5)"
    show "marshalable (JObject r4)"
    proof (rule ccontr)
      assume n: "\<not> marshalable (JObject r4)"
      with m4 have c "\<not> marshalable (gjson_Value (gjson_Get responseData ''stop_sequence''))" by auto
      then have "(''stop_sequence'', gjson_Value (gjson_Get responseData ''stop_sequence'')) \<in> set r4"
        unfolding r4_def by (simp add: mapAssign_mem)
      then have "(''stop_sequence'', gjson_Value (gjson_Get responseData ''stop_sequence'')) \<in> set r5"
        unfolding r5_def by (simp add: mapAssign_keeps)
      with a \<open>\<not> marshalable (gjson_Value (gjson_Get responseData ''stop_sequence''))\<close>
      show False by auto
    qed
  qed
  show ?thesis unfolding eq m5 m4 c_def by blast
qed

lemma nonstream_empty_iff:
  assumes "unmarshalFinite L"
  shows "ConvertCodexResponseToClaudeNonStream L original rawJSON = JEmpty \<longleftrightarrow>
     (gjson_String (gjson_Get (gjson_ParseBytes L rawJSON) ''type'') \<noteq> ''response.completed''
      \<or> \<not> gjson_Exists (gjson_Get (gjson_ParseBytes L rawJSON) ''response'')
      \<or> (gjson_Exists (gjson_GetPath (gjson_ParseBytes L rawJSON) [''response'', ''stop_sequence''])
          \<and> gjson_String (gjson_GetPath (gjson_ParseBytes L rawJSON) [''response'', ''stop_sequence'']) \<noteq> []
          \<and> \<not> marshalable (gjson_Value (gjson_GetPath (gjson_ParseBytes L rawJSON) [''response'', ''stop_sequence'']))))"
  unfolding ConvertCodexResponseToClaudeNonStream_def Let_def gjson_GetPath_def
  by (simp add: claudeResponse_marshalable[OF assms] del: marshalable.simps(3))







section \<open>Properties of the request converter\<close>


lemma map_of_removeMember_other: "k' \<noteq> k \<Longrightarrow> map_of (removeMember kvs k) k' = map_of kvs k'"
  by (induction kvs) auto

lemma map_of_append_new:
  "map_of kvs k = None \<Longrightarrow> map_of (kvs @ [(k, v)]) k' = (if k' = k then Some v else map_of kvs k')"
  by (auto simp: map_add_def split: option.splits)


















lemma atoui_names [simp]:
  "atoui ''thinkingBudget'' = None" "atoui ''aspectRatio'' = None"
  by (simp_all add: atoui_def)











lemma atoui_more [simp]:
  "atoui ''-1'' = None" "atoui ''0'' = Some 0" "atoui ''functionDeclarations'' = None"
  "atoui ''role'' = None" "atoui ''parts'' = None" "atoui ''text'' = None"
  by (simp_all add: atoui_def)














section \<open>Example documents\<close>

text \<open>
  A library for the examples: its parser knows the JSON texts below and returns the
  tree each of them denotes (and \<open>RMissing\<close> for any other text); its decoder knows
  the argument text \<open>{"x":1}\<close>.

  The original request declares two tools whose names have 65 characters and agree
  on the first 64, so that the second is shortened to 62 characters and \<open>~1\<close>.
\<close>

definition shortOfTool2 :: string where
  "shortOfTool2 = replicate 62 CHR ''a'' @ ''~1''"

definition exTool1Text :: string where
  "exTool1Text = ''{\"name\":\"'' @ longA @ ''1\"}''"

definition exTool2Text :: string where
  "exTool2Text = ''{\"name\":\"'' @ longA @ ''2\"}''"

definition exToolsText :: string where
  "exToolsText = ''['' @ exTool1Text @ '','' @ exTool2Text @ '']''"

definition exOriginalText :: string where
  "exOriginalText = ''{\"tools\":'' @ exToolsText @ ''}''"

definition exOriginal :: result where
  "exOriginal =
     RObject exOriginalText
       [(''tools'', RArray exToolsText
          [RObject exTool1Text [(''name'', RString (longA @ ''1''))],
           RObject exTool2Text [(''name'', RString (longA @ ''2''))]])]"

text \<open>An original request that declares no tools.\<close>

definition exPlainText :: string where
  "exPlainText = ''{\"model\":\"claude\"}''"

definition exPlain :: result where
  "exPlain = RObject exPlainText [(''model'', RString ''claude'')]"

text \<open>Upstream events of a streaming session.\<close>

definition exCallItemText :: string where
  "exCallItemText =
     ''{\"type\":\"function_call\",\"call_id\":\"call_1\",\"name\":\"'' @ shortOfTool2 @ ''\"}''"

definition exCallText :: string where
  "exCallText =
     ''{\"type\":\"response.output_item.added\",\"output_index\":1,\"item\":'' @ exCallItemText @ ''}''"

definition exCall :: result where
  "exCall =
     RObject exCallText
       [(''type'', RString ''response.output_item.added''),
        (''output_index'', RNumber (Number ''1'' 1 True)),
        (''item'', RObject exCallItemText
           [(''type'', RString ''function_call''),
            (''call_id'', RString ''call_1''),
            (''name'', RString shortOfTool2)])]"

definition exUsageText :: string where
  "exUsageText = ''{\"input_tokens\":12,\"output_tokens\":34}''"

definition exCompletedText :: string where
  "exCompletedText =
     ''{\"type\":\"response.completed\",\"response\":{\"usage\":'' @ exUsageText @ ''}}''"

definition exCompleted :: result where
  "exCompleted =
     RObject exCompletedText
       [(''type'', RString ''response.completed''),
        (''response'', RObject (''{\"usage\":'' @ exUsageText @ ''}'')
           [(''usage'', RObject exUsageText
              [(''input_tokens'', RNumber (Number ''12'' 12 True)),
               (''output_tokens'', RNumber (Number ''34'' 34 True))])])]"

definition exUnknownText :: string where
  "exUnknownText = ''{\"type\":\"response.in_progress\"}''"

definition exUnknown :: result where
  "exUnknown = RObject exUnknownText [(''type'', RString ''response.in_progress'')]"

text \<open>
  Terminal documents for the non-stream converter: one with two function-call items,
  the first with the arguments \<open>{"x":1}\<close> and the shortened name of the second tool,
  the second with arguments that do not parse; and one whose \<open>stop_sequence\<close> is a
  number beyond the \<open>float64\<close> range.
\<close>

definition exItem1Text :: string where
  "exItem1Text =
     ''{\"type\":\"function_call\",\"call_id\":\"call_1\",\"name\":\"'' @ shortOfTool2
       @ ''\",\"arguments\":\"{'' @ [CHR 0x5C] @ ''\"x'' @ [CHR 0x5C] @ ''\":1}\"}''"

definition exItem1 :: result where
  "exItem1 =
     RObject exItem1Text
       [(''type'', RString ''function_call''), (''call_id'', RString ''call_1''),
        (''name'', RString shortOfTool2), (''arguments'', RString ''{\"x\":1}'')]"

definition exItem2Text :: string where
  "exItem2Text =
     ''{\"type\":\"function_call\",\"call_id\":\"call_2\",\"name\":\"lookup\",\"arguments\":\"{bad\"}''"

definition exItem2 :: result where
  "exItem2 =
     RObject exItem2Text
       [(''type'', RString ''function_call''), (''call_id'', RString ''call_2''),
        (''name'', RString ''lookup''), (''arguments'', RString ''{bad'')]"

definition exOutputText :: string where
  "exOutputText = ''['' @ exItem1Text @ '','' @ exItem2Text @ '']''"

definition exResponseText :: string where
  "exResponseText = ''{\"id\":\"resp_1\",\"model\":\"gpt-5\",\"output\":'' @ exOutputText @ ''}''"

definition exTerminalText :: string where
  "exTerminalText = ''{\"type\":\"response.completed\",\"response\":'' @ exResponseText @ ''}''"

definition exTerminal :: result where
  "exTerminal =
     RObject exTerminalText
       [(''type'', RString ''response.completed''),
        (''response'', RObject exResponseText
           [(''id'', RString ''resp_1''), (''model'', RString ''gpt-5''),
            (''output'', RArray exOutputText [exItem1, exItem2])])]"

definition exOverflowText :: string where
  "exOverflowText = ''{\"type\":\"response.completed\",\"response\":{\"stop_sequence\":1e999}}''"

definition exOverflow :: result where
  "exOverflow =
     RObject exOverflowText
       [(''type'', RString ''response.completed''),
        (''response'', RObject ''{\"stop_sequence\":1e999}''
           [(''stop_sequence'', RNumber (Number ''+Inf'' (- 9223372036854775808) False))])]"

text \<open>A Chat Completions request that asks for images and text.\<close>

definition exImageRequestText :: string where
  "exImageRequestText = ''{\"modalities\":[\"image\",\"text\"],\"reasoning_effort\":\"low\"}''"

definition exImageRequest :: result where
  "exImageRequest =
     RObject exImageRequestText
       [(''modalities'', RArray ''[\"image\",\"text\"]'' [RString ''image'', RString ''text'']),
        (''reasoning_effort'', RString ''low'')]"

definition exParse :: "string \<Rightarrow> result" where
  "exParse text =
     (if text = exOriginalText then exOriginal
      else if text = exPlainText then exPlain
      else if text = exCallText then exCall
      else if text = exCompletedText then exCompleted
      else if text = exUnknownText then exUnknown
      else if text = exTerminalText then exTerminal
      else if text = exOverflowText then exOverflow
      else if text = exImageRequestText then exImageRequest
      else RMissing)"

definition exUnmarshal :: "string \<Rightarrow> json option" where
  "exUnmarshal text =
     (if text = ''{\"x\":1}'' then Some (JObject [(''x'', JFloat (Number ''1'' 1 True))]) else None)"

definition exLib :: lib where
  "exLib = \<lparr>gjson_ParseBytes = exParse, json_Unmarshal = exUnmarshal\<rparr>"

text \<open>The lines of a session, as the transport hands them over.\<close>

definition exCallLine :: string where
  "exCallLine = ''data: '' @ exCallText"

definition exCompletedLine :: string where
  "exCompletedLine = ''data: '' @ exCompletedText"

definition exUnknownLine :: string where
  "exUnknownLine = ''data: '' @ exUnknownText"

definition exEventLine :: string where
  "exEventLine = ''event: response.completed''"

section \<open>Claims about the response path\<close>

text \<open>
  Claim C2. Let \<open>names\<close> be the tool names of the original request, as the response
  path collects them. For every \<open>T\<close> among them, and so for every tool name of more
  than 64 characters, \<open>buildShortNameMap names\<close> gives \<open>T\<close> a short name, and the
  reverse map that \<open>buildReverseMapFromClaudeOriginalShortToOriginal\<close> recomputes
  from the original request maps that short name back to \<open>T\<close>, so the lookup of the
  response path restores \<open>T\<close>. This holds in whatever order Go visits the keys of
  the map when it is turned around.
\<close>

theorem tool_name_round_trip:
  assumes "gjson_IsArray (gjson_Get (gjson_ParseBytes L original) ''tools'')"
    and "names = collectToolNames (gjson_Array (gjson_Get (gjson_ParseBytes L original) ''tools''))"
    and "T \<in> set names"
  shows "\<exists>short. buildShortNameMap names T = Some short
           \<and> buildReverseMapFromClaudeOriginalShortToOriginal L original short = Some T
           \<and> (case buildReverseMapFromClaudeOriginalShortToOriginal L original short of
                 Some orig \<Rightarrow> orig | None \<Rightarrow> short) = T
           \<and> (\<forall>keys. set keys = set names \<longrightarrow>
                 rangeAssign keys (buildShortNameMap names) Map.empty short = Some T)"
proof -
  from assms(3) dom_buildShortNameMap[of names] obtain short
    where s: "buildShortNameMap names T = Some short" by blast
  have all: "\<And>keys. set keys = set names \<Longrightarrow>
      rangeAssign keys (buildShortNameMap names) Map.empty short = Some T"
  proof -
    fix keys :: "string list" assume "set keys = set names"
    with assms(3) have "T \<in> set keys" by simp
    have inj: "\<And>k k' v. buildShortNameMap names k = Some v
        \<Longrightarrow> buildShortNameMap names k' = Some v \<Longrightarrow> k = k'"
      by (rule buildShortNameMap_inj)
    from rangeAssign_Some[of "buildShortNameMap names", OF inj \<open>T \<in> set keys\<close> s]
    show "rangeAssign keys (buildShortNameMap names) Map.empty short = Some T" .
  qed
  have "buildReverseMapFromClaudeOriginalShortToOriginal L original short = Some T"
    unfolding buildReverseMap_eq[OF assms(1,2)] by (rule all) simp
  with s all show ?thesis by auto
qed

text \<open>
  The second tool of the example request has a name of 65 characters; it is shortened
  to 62 characters and \<open>~1\<close>, and the reverse map gives the name back.
\<close>

theorem tool_name_round_trip_witness:
  "gjson_IsArray (gjson_Get (gjson_ParseBytes exLib exOriginalText) ''tools'')
   \<and> collectToolNames (gjson_Array (gjson_Get (gjson_ParseBytes exLib exOriginalText) ''tools''))
       = [longA @ ''1'', longA @ ''2'']
   \<and> 64 < length (longA @ ''2'')
   \<and> buildShortNameMap [longA @ ''1'', longA @ ''2''] (longA @ ''2'') = Some shortOfTool2
   \<and> buildReverseMapFromClaudeOriginalShortToOriginal exLib exOriginalText shortOfTool2
       = Some (longA @ ''2'')"
proof -
  have h1: "gjson_IsArray (gjson_Get (gjson_ParseBytes exLib exOriginalText) ''tools'')"
    by code_simp
  have h2: "[longA @ ''1'', longA @ ''2'']
      = collectToolNames (gjson_Array (gjson_Get (gjson_ParseBytes exLib exOriginalText) ''tools''))"
    by code_simp
  have h3: "longA @ ''2'' \<in> set [longA @ ''1'', longA @ ''2'']" by simp
  have l: "64 < length (longA @ ''2'')" by (simp add: longA_def)
  have v: "buildShortNameMap [longA @ ''1'', longA @ ''2''] (longA @ ''2'') = Some shortOfTool2"
    by code_simp
  from tool_name_round_trip[OF h1 h2 h3] v
  have "buildReverseMapFromClaudeOriginalShortToOriginal exLib exOriginalText shortOfTool2
      = Some (longA @ ''2'')" by auto
  with h1 h2 l v show ?thesis by simp
qed

text \<open>
  Claim C4. In a streaming session, when the converter receives a data line whose
  document has the type \<open>response.completed\<close>, after the lines \<open>earlier\<close> of the
  session, it returns one string with two events: a \<open>message_delta\<close> whose
  \<open>stop_reason\<close> is \<open>tool_use\<close> if one of the earlier lines added a function-call
  item (which is what sets the state) and \<open>end_turn\<close> otherwise, and whose
  \<open>input_tokens\<close> and \<open>output_tokens\<close> are those of \<open>response.usage\<close> in the
  upstream document; and then a \<open>message_stop\<close>.
\<close>

theorem completed_emits_message_delta_and_stop:
  assumes "strings_HasPrefix line dataTag"
    and "gjson_String (gjson_Get (lineRoot L line) ''type'') = ''response.completed''"
  shows "fst (ConvertCodexResponseToClaude L original line (snd (runStream L original earlier None))) =
     [[(''message_delta'',
         JObject [(''type'', JString ''message_delta''),
           (''delta'', JObject
              [(''stop_reason'', JString (if \<exists>l \<in> set earlier. functionCallAdded L l
                                           then ''tool_use'' else ''end_turn'')),
               (''stop_sequence'', JNull)]),
           (''usage'', JObject
              [(''input_tokens'', JInt (gjson_Int (gjson_GetPath (lineRoot L line) [''response'', ''usage'', ''input_tokens'']))),
               (''output_tokens'', JInt (gjson_Int (gjson_GetPath (lineRoot L line) [''response'', ''usage'', ''output_tokens''])))])]),
        (''message_stop'', JObject [(''type'', JString ''message_stop'')])]]"
proof -
  have "snd (runStream L original earlier None) = Some True
      \<longleftrightarrow> (\<exists>l \<in> set earlier. functionCallAdded L l)"
    by (simp add: runStream_state)
  then show ?thesis
    unfolding convert_completed[OF assms] by simp
qed

text \<open>
  A session in which a function call was added before the completion, and one in
  which nothing came before it; the usage of the example document is 12 and 34.
\<close>

theorem completed_emits_message_delta_and_stop_witness:
  "strings_HasPrefix exCompletedLine dataTag
   \<and> gjson_String (gjson_Get (lineRoot exLib exCompletedLine) ''type'') = ''response.completed''
   \<and> fst (ConvertCodexResponseToClaude exLib exOriginalText exCompletedLine
            (snd (runStream exLib exOriginalText [exCallLine] None))) =
       [[(''message_delta'',
          JObject [(''type'', JString ''message_delta''),
            (''delta'', JObject [(''stop_reason'', JString ''tool_use''), (''stop_sequence'', JNull)]),
            (''usage'', JObject [(''input_tokens'', JInt 12), (''output_tokens'', JInt 34)])]),
         (''message_stop'', JObject [(''type'', JString ''message_stop'')])]]
   \<and> fst (ConvertCodexResponseToClaude exLib exOriginalText exCompletedLine
            (snd (runStream exLib exOriginalText [] None))) =
       [[(''message_delta'',
          JObject [(''type'', JString ''message_delta''),
            (''delta'', JObject [(''stop_reason'', JString ''end_turn''), (''stop_sequence'', JNull)]),
            (''usage'', JObject [(''input_tokens'', JInt 12), (''output_tokens'', JInt 34)])]),
         (''message_stop'', JObject [(''type'', JString ''message_stop'')])]]"
proof -
  have h1: "strings_HasPrefix exCompletedLine dataTag" by code_simp
  have h2: "gjson_String (gjson_Get (lineRoot exLib exCompletedLine) ''type'') = ''response.completed''"
    by code_simp
  have fc: "functionCallAdded exLib exCallLine" by code_simp
  have i1: "gjson_Int (gjson_GetPath (lineRoot exLib exCompletedLine) [''response'', ''usage'', ''input_tokens'']) = 12"
    by code_simp
  have i2: "gjson_Int (gjson_GetPath (lineRoot exLib exCompletedLine) [''response'', ''usage'', ''output_tokens'']) = 34"
    by code_simp
  from completed_emits_message_delta_and_stop[OF h1 h2, of exOriginalText "[exCallLine]"]
    completed_emits_message_delta_and_stop[OF h1 h2, of exOriginalText "[]"]
    h1 h2 fc i1 i2
  show ?thesis by simp
qed

text \<open>
  Claim C5. A line that does not start with the data marker \<open>data:\<close>, and a data
  line whose type is none of the eleven types the converter knows, make the
  converter emit no event: for the first it returns the empty slice, for the second
  the slice that holds the empty string and nothing else. In both cases the strings
  returned hold no event at all.
\<close>

theorem unrecognized_input_emits_nothing:
  "(\<not> strings_HasPrefix line dataTag \<longrightarrow>
      fst (ConvertCodexResponseToClaude L original line param) = [])
   \<and> (strings_HasPrefix line dataTag
        \<and> gjson_String (gjson_Get (lineRoot L line) ''type'') \<notin> knownTypes \<longrightarrow>
      fst (ConvertCodexResponseToClaude L original line param) = [[]])
   \<and> (\<not> strings_HasPrefix line dataTag
        \<or> gjson_String (gjson_Get (lineRoot L line) ''type'') \<notin> knownTypes \<longrightarrow>
      concat (fst (ConvertCodexResponseToClaude L original line param)) = [])"
  by (simp add: ConvertCodexResponseToClaude_def lineRoot_def Let_def knownTypes_def)

theorem unrecognized_input_emits_nothing_witness:
  "\<not> strings_HasPrefix exEventLine dataTag
   \<and> fst (ConvertCodexResponseToClaude exLib exOriginalText exEventLine None) = []
   \<and> strings_HasPrefix exUnknownLine dataTag
   \<and> gjson_String (gjson_Get (lineRoot exLib exUnknownLine) ''type'') \<notin> knownTypes
   \<and> fst (ConvertCodexResponseToClaude exLib exOriginalText exUnknownLine None) = [[]]
   \<and> concat (fst (ConvertCodexResponseToClaude exLib exOriginalText exUnknownLine None)) = []"
proof -
  have h1: "\<not> strings_HasPrefix exEventLine dataTag" by code_simp
  have h2: "strings_HasPrefix exUnknownLine dataTag" by code_simp
  have t: "gjson_String (gjson_Get (lineRoot exLib exUnknownLine) ''type'') = ''response.in_progress''"
    by code_simp
  have h3: "gjson_String (gjson_Get (lineRoot exLib exUnknownLine) ''type'') \<notin> knownTypes"
    unfolding t by (simp add: knownTypes_def)
  from unrecognized_input_emits_nothing[of exEventLine exLib exOriginalText None]
    unrecognized_input_emits_nothing[of exUnknownLine exLib exOriginalText None] h1 h2 h3
  show ?thesis by simp
qed

section \<open>Claims about the non-stream converter\<close>

text \<open>
  Claim C6, as stated: the converter returns the empty result exactly when the
  upstream document is not terminal, and a document for every terminal one. This
  fails: the document below is terminal (its type is \<open>response.completed\<close> and it
  carries a \<open>response\<close> object), and the result is empty, because its
  \<open>stop_sequence\<close> is the number \<open>1e999\<close>, whose \<open>float64\<close> value is an infinity
  that \<open>json.Marshal\<close> refuses, and the converter returns the empty string when
  \<open>json.Marshal\<close> fails.
\<close>

theorem terminal_document_empty_result_counterexample:
  "gjson_String (gjson_Get (gjson_ParseBytes exLib exOverflowText) ''type'') = ''response.completed''
   \<and> gjson_Exists (gjson_Get (gjson_ParseBytes exLib exOverflowText) ''response'')
   \<and> ConvertCodexResponseToClaudeNonStream exLib exOriginalText exOverflowText = JEmpty"
  by code_simp

text \<open>
  Claim C6, amended. With a decoder that only returns values \<open>json.Marshal\<close> can
  encode (as \<open>json.Unmarshal\<close> does), the converter returns the empty result exactly
  when the upstream document is not terminal (its type is not \<open>response.completed\<close>
  or it carries no \<open>response\<close> object) or the \<open>stop_sequence\<close> of its response holds
  a number that is not a finite \<open>float64\<close>. For every other terminal document
  it returns a document, so the empty result does not arise from a terminal document
  with no content.
\<close>

theorem nonstream_empty_result:
  assumes "unmarshalFinite L"
  shows "ConvertCodexResponseToClaudeNonStream L original rawJSON = JEmpty \<longleftrightarrow>
     (gjson_String (gjson_Get (gjson_ParseBytes L rawJSON) ''type'') \<noteq> ''response.completed''
      \<or> \<not> gjson_Exists (gjson_Get (gjson_ParseBytes L rawJSON) ''response'')
      \<or> (gjson_Exists (gjson_GetPath (gjson_ParseBytes L rawJSON) [''response'', ''stop_sequence''])
          \<and> gjson_String (gjson_GetPath (gjson_ParseBytes L rawJSON) [''response'', ''stop_sequence'']) \<noteq> []
          \<and> \<not> marshalable (gjson_Value (gjson_GetPath (gjson_ParseBytes L rawJSON) [''response'', ''stop_sequence'']))))"
  by (rule nonstream_empty_iff[OF assms])

text \<open>
  A terminal document with no content gives a document, an event that is not terminal
  gives the empty result, and so does the terminal document with the infinite
  \<open>stop_sequence\<close>.
\<close>

theorem nonstream_empty_result_witness:
  "unmarshalFinite exLib
   \<and> gjson_String (gjson_Get (gjson_ParseBytes exLib exCompletedText) ''type'') = ''response.completed''
   \<and> gjson_Exists (gjson_Get (gjson_ParseBytes exLib exCompletedText) ''response'')
   \<and> ConvertCodexResponseToClaudeNonStream exLib exOriginalText exCompletedText \<noteq> JEmpty
   \<and> gjson_String (gjson_Get (gjson_ParseBytes exLib exCallText) ''type'') \<noteq> ''response.completed''
   \<and> ConvertCodexResponseToClaudeNonStream exLib exOriginalText exCallText = JEmpty
   \<and> \<not> marshalable (gjson_Value (gjson_GetPath (gjson_ParseBytes exLib exOverflowText) [''response'', ''stop_sequence'']))
   \<and> ConvertCodexResponseToClaudeNonStream exLib exOriginalText exOverflowText = JEmpty"
proof -
  have u: "unmarshalFinite exLib"
    by (simp add: unmarshalFinite_def exLib_def exUnmarshal_def)
  have a1: "gjson_String (gjson_Get (gjson_ParseBytes exLib exCompletedText) ''type'') = ''response.completed''"
    by code_simp
  have a2: "gjson_Exists (gjson_Get (gjson_ParseBytes exLib exCompletedText) ''response'')"
    by code_simp
  have a3: "\<not> gjson_Exists (gjson_GetPath (gjson_ParseBytes exLib exCompletedText) [''response'', ''stop_sequence''])"
    by code_simp
  have b1: "gjson_String (gjson_Get (gjson_ParseBytes exLib exCallText) ''type'') \<noteq> ''response.completed''"
    by code_simp
  have c1: "gjson_String (gjson_Get (gjson_ParseBytes exLib exOverflowText) ''type'') = ''response.completed''"
    by code_simp
  have c2: "gjson_Exists (gjson_GetPath (gjson_ParseBytes exLib exOverflowText) [''response'', ''stop_sequence''])"
    by code_simp
  have c3: "gjson_String (gjson_GetPath (gjson_ParseBytes exLib exOverflowText) [''response'', ''stop_sequence'']) \<noteq> []"
    by code_simp
  have c4: "\<not> marshalable (gjson_Value (gjson_GetPath (gjson_ParseBytes exLib exOverflowText) [''response'', ''stop_sequence'']))"
    by code_simp
  from nonstream_empty_result[OF u, of exOriginalText exCompletedText] a1 a2 a3
  have r1: "ConvertCodexResponseToClaudeNonStream exLib exOriginalText exCompletedText \<noteq> JEmpty"
    by blast
  from nonstream_empty_result[OF u, of exOriginalText exCallText] b1
  have r2: "ConvertCodexResponseToClaudeNonStream exLib exOriginalText exCallText = JEmpty"
    by blast
  from nonstream_empty_result[OF u, of exOriginalText exOverflowText] c2 c3 c4
  have r3: "ConvertCodexResponseToClaudeNonStream exLib exOriginalText exOverflowText = JEmpty"
    by blast
  from u a1 a2 r1 b1 r2 c4 r3 show ?thesis by blast
qed





section \<open>Claims about the request converter\<close>




end
